theory Spec2Isabelle
  imports Main
begin

section \<open>Values exchanged with Solr\<close>

text \<open>
  The indexer (\<^verbatim>\<open>dspace_statistics_api/indexer.py\<close>) reads three kinds of Solr answers
  through \<^verbatim>\<open>requests.get(...).json()\<close>. A parsed answer is a Python value built from
  \<^verbatim>\<open>None\<close>, booleans, integers, strings, lists and dicts. \<open>JObj kvs\<close> lists the
  items of a dict in insertion order; in a value produced by the JSON parser the keys of
  one dict are pairwise distinct. JSON numbers are integers in every field the program
  reads (core status, distinct counts, facet counts), so floats are left out.
\<close>

datatype json =
    JNull
  | JBool bool
  | JInt int
  | JStr string
  | JArr "json list"
  | JObj "(string \<times> json) list"

text \<open>
  The exceptions that can leave a function of the module. \<open>SystemExit n\<close> is what
  \<^verbatim>\<open>exit(n)\<close> raises; every other one is uncaught and ends the process with a
  traceback. \<open>DataError\<close> and \<open>UndefinedTable\<close> are raised by the database driver.
\<close>

datatype exn =
    TypeError
  | KeyError
  | AttributeError
  | JSONDecodeError
  | ConnectionError
  | DataError
  | UndefinedTable
  | OverflowError
  | SystemExit int

text \<open>\<^verbatim>\<open>v[k]\<close> for a string key: only a dict can be subscripted by a string.\<close>

fun py_getitem :: "json \<Rightarrow> string \<Rightarrow> exn + json" where
  "py_getitem (JObj kvs) k = (case map_of kvs k of None \<Rightarrow> Inl KeyError | Some v \<Rightarrow> Inr v)"
| "py_getitem v k = Inl TypeError"

text \<open>\<^verbatim>\<open>v[k1][k2]...\<close>, evaluated left to right; the first failing subscript raises.\<close>

fun subscript_path :: "json \<Rightarrow> string list \<Rightarrow> exn + json" where
  "subscript_path v [] = Inr v"
| "subscript_path v (k # ks) =
     (case py_getitem v k of Inl e \<Rightarrow> Inl e | Inr w \<Rightarrow> subscript_path w ks)"

text \<open>\<^verbatim>\<open>for x in v\<close>: a dict yields its keys, a list its elements, a string its characters.\<close>

fun py_iter :: "json \<Rightarrow> exn + json list" where
  "py_iter (JObj kvs) = Inr (map (\<lambda>kv. JStr (fst kv)) kvs)"
| "py_iter (JArr xs) = Inr xs"
| "py_iter (JStr s) = Inr (map (\<lambda>c. JStr [c]) s)"
| "py_iter v = Inl TypeError"

text \<open>\<^verbatim>\<open>v.items()\<close>: only a dict has the method.\<close>

fun py_items :: "json \<Rightarrow> exn + (string \<times> json) list" where
  "py_items (JObj kvs) = Inr kvs"
| "py_items v = Inl AttributeError"

subsection \<open>HTTP requests and responses\<close>

datatype pval = PStr string | PInt int

record request =
  url :: string
  params :: "(string \<times> pval) list"

record response =
  status_code :: nat
  body :: "json option"

text \<open>
  The Solr server as the program sees it: \<open>None\<close> when \<^verbatim>\<open>requests.get\<close> raises (server
  unreachable), otherwise the response. A body that is not JSON is \<open>body = None\<close>.
  Within one run every request the program sends is different from all earlier ones, so a
  function of the request describes any server for one run.
\<close>

type_synonym solr = "request \<Rightarrow> response option"

text \<open>\<^verbatim>\<open>res.json()\<close>\<close>

definition res_json :: "response \<Rightarrow> exn + json" where
  "res_json res = (case body res of None \<Rightarrow> Inl JSONDecodeError | Some j \<Rightarrow> Inr j)"

section \<open>The table \<^verbatim>\<open>items\<close>\<close>

text \<open>
  \<^verbatim>\<open>CREATE TABLE IF NOT EXISTS items (id UUID PRIMARY KEY, views INT DEFAULT 0,
  downloads INT DEFAULT 0)\<close>. The database is \<open>None\<close> while the table does not exist.
  Identifiers are the strings Solr returns; PostgreSQL's parsing of the UUID text is not
  modelled. The connection of \<^verbatim>\<open>DatabaseManager\<close> (module \<^verbatim>\<open>database\<close>) is taken to
  be available.
\<close>

record row =
  views :: int
  downloads :: int

type_synonym table = "string \<rightharpoonup> row"

datatype dimension = Views | Downloads

definition default_row :: row where
  "default_row = \<lparr>views = 0, downloads = 0\<rparr>"

definition create_table :: "table option \<Rightarrow> table option" where
  "create_table db = (case db of None \<Rightarrow> Some Map.empty | Some t \<Rightarrow> Some t)"

fun column :: "dimension \<Rightarrow> row \<Rightarrow> int" where
  "column Views r = views r"
| "column Downloads r = downloads r"

fun set_column :: "dimension \<Rightarrow> int \<Rightarrow> row \<Rightarrow> row" where
  "set_column Views n r = r\<lparr>views := n\<rparr>"
| "set_column Downloads n r = r\<lparr>downloads := n\<rparr>"

text \<open>
  One row of \<^verbatim>\<open>INSERT INTO items(id, views) VALUES %s ON CONFLICT(id) DO UPDATE SET
  views=excluded.views\<close> (and the same statement for \<^verbatim>\<open>downloads\<close>): a new identifier
  gets a row whose other column takes its default, an existing row has the one column set.
\<close>

definition upsert :: "dimension \<Rightarrow> string \<times> int \<Rightarrow> table \<Rightarrow> table" where
  "upsert d kv t =
     (case t (fst kv) of
        None \<Rightarrow> t(fst kv \<mapsto> set_column d (snd kv) default_row)
      | Some r \<Rightarrow> t(fst kv \<mapsto> set_column d (snd kv) r))"

text \<open>The row an upsert starts from: the stored one, or the defaults of a new row.\<close>

definition row_or_default :: "table \<Rightarrow> string \<Rightarrow> row" where
  "row_or_default t k = (case t k of None \<Rightarrow> default_row | Some r \<Rightarrow> r)"

text \<open>
  The value bound to the INT column. Solr facet counts are integers; an integer outside
  the 32-bit range is refused by PostgreSQL. The model lets the statement fail on a
  count of any other JSON type as well; what the driver and PostgreSQL make of such a
  value is outside the model.
\<close>

fun int_param :: "string \<times> json \<Rightarrow> exn + (string \<times> int)" where
  "int_param (k, JInt n) =
     (if - (2 ^ 31) \<le> n \<and> n < 2 ^ 31 then Inr (k, n) else Inl DataError)"
| "int_param (k, v) = Inl DataError"

fun int_params :: "(string \<times> json) list \<Rightarrow> exn + (string \<times> int) list" where
  "int_params [] = Inr []"
| "int_params (x # xs) =
     (case int_param x of
        Inl e \<Rightarrow> Inl e
      | Inr y \<Rightarrow> (case int_params xs of Inl e \<Rightarrow> Inl e | Inr ys \<Rightarrow> Inr (y # ys)))"

text \<open>
  \<^verbatim>\<open>psycopg2.extras.execute_values(cursor, sql, data, template="(%s, %s)")\<close> inside the
  open transaction. With no rows no statement is sent. A failing row fails the call and
  nothing of the page is committed.
\<close>

definition execute_values ::
  "dimension \<Rightarrow> (string \<times> json) list \<Rightarrow> table option \<Rightarrow> exn + table option" where
  "execute_values d rows db =
     (if rows = [] then Inr db
      else case db of
        None \<Rightarrow> Inl UndefinedTable
      | Some t \<Rightarrow>
          (case int_params rows of
             Inl e \<Rightarrow> Inl e
           | Inr ps \<Rightarrow> Inr (Some (fold (upsert d) ps t))))"

section \<open>Observable steps of a run\<close>

datatype message =
    NothingToIndex dimension
  | Progress dimension int int

datatype event =
    Get request
  | Say message
  | CreateTable
  | Execute dimension "(string \<times> json) list"
  | Commit

text \<open>
  What a part of the program leaves behind: the steps it took in order, the committed
  database, and the exception that ended it, if any.
\<close>

record run =
  trace :: "event list"
  store :: "table option"
  raised :: "exn option"

text \<open>The exit status of the Python process.\<close>

fun exit_code :: "exn option \<Rightarrow> int" where
  "exit_code None = 0"
| "exit_code (Some (SystemExit n)) = n"
| "exit_code (Some e) = 1"

section \<open>\<^verbatim>\<open>get_statistics_shards\<close>\<close>

definition is_digit :: "char \<Rightarrow> bool" where
  "is_digit c = (c \<in> set ''0123456789'')"

text \<open>
  \<^verbatim>\<open>re.compile("^statistics-[0-9]{4}$").match(core)\<close>. In Python \<^verbatim>\<open>$\<close> matches at the
  end of the string and also just before a newline that ends the string.
\<close>

definition pattern_match :: "string \<Rightarrow> bool" where
  "pattern_match core =
     (take 11 core = ''statistics-'' \<and>
      length (take 4 (drop 11 core)) = 4 \<and>
      list_all is_digit (take 4 (drop 11 core)) \<and>
      (drop 15 core = [] \<or> drop 15 core = [CHR 0x0A]))"

text \<open>
  The pattern in the words of the specification: the base name \<^verbatim>\<open>statistics\<close>, a
  hyphen and a year of exactly four digits, and nothing else.
\<close>

definition year_core :: "string \<Rightarrow> bool" where
  "year_core core =
     (take 11 core = ''statistics-'' \<and> length core = 15 \<and> list_all is_digit (drop 11 core))"

text \<open>
  The loop over \<^verbatim>\<open>data["status"]\<close> with its accumulator \<^verbatim>\<open>statistics_core_years\<close>.
  \<^verbatim>\<open>pattern.match\<close> raises TypeError on anything but a string.
\<close>

fun collect_cores :: "json list \<Rightarrow> string list \<Rightarrow> exn + string list" where
  "collect_cores [] acc = Inr acc"
| "collect_cores (JStr core # cs) acc =
     (if \<not> pattern_match core then collect_cores cs acc
      else collect_cores cs (acc @ [core]))"
| "collect_cores (v # cs) acc = Inl TypeError"

definition statistics_core_years :: "response \<Rightarrow> exn + string list" where
  "statistics_core_years res =
     (if status_code res = 200 then
        (case res_json res of
           Inl e \<Rightarrow> Inl e
         | Inr data \<Rightarrow>
             (case py_getitem data ''status'' of
                Inl e \<Rightarrow> Inl e
              | Inr status \<Rightarrow>
                  (case py_iter status of
                     Inl e \<Rightarrow> Inl e
                   | Inr cores \<Rightarrow> collect_cores cores [])))
      else Inr [])"

definition build_shards :: "string \<Rightarrow> string list \<Rightarrow> string" where
  "build_shards server years =
     (if length years > 0 then
        fold (\<lambda>core shards. shards @ '','' @ server @ ''/'' @ core) years
          (server @ ''/statistics'')
      else [])"

definition cores_request :: "string \<Rightarrow> request" where
  "cores_request server =
     \<lparr>url = server @ ''/admin/cores'',
      params = [(''action'', PStr ''STATUS''), (''wt'', PStr ''json'')]\<rparr>"

text \<open>
  The function returns the steps it took and its result. \<open>server\<close> is the constant
  \<^verbatim>\<open>SOLR_SERVER\<close> of the module \<^verbatim>\<open>config\<close>.
\<close>

definition get_statistics_shards :: "string \<Rightarrow> solr \<Rightarrow> event list \<times> (exn + string)" where
  "get_statistics_shards server solr =
     (case solr (cores_request server) of
        None \<Rightarrow> ([Get (cores_request server)], Inl ConnectionError)
      | Some res \<Rightarrow>
          (case statistics_core_years res of
             Inl e \<Rightarrow> ([Get (cores_request server)], Inl e)
           | Inr years \<Rightarrow> ([Get (cores_request server)], Inr (build_shards server years))))"

text \<open>
  The shard string read as a list: the targets it names, joined by commas. The first
  target is the base core, the others are the year cores.
\<close>

fun comma_join :: "string list \<Rightarrow> string" where
  "comma_join [] = []"
| "comma_join [x] = x"
| "comma_join (x # y # zs) = x @ '','' @ comma_join (y # zs)"

definition shard_targets :: "string \<Rightarrow> string list \<Rightarrow> string list" where
  "shard_targets server years = (server @ ''/statistics'') # map (\<lambda>core. server @ ''/'' @ core) years"

section \<open>\<^verbatim>\<open>index_views\<close> and \<^verbatim>\<open>index_downloads\<close>\<close>

text \<open>
  The two functions are the same text up to the query, the filter, the facet field, the
  messages and the column written; \<open>index_dimension\<close> is that text with the dimension as
  a parameter.
\<close>

fun query :: "dimension \<Rightarrow> string" where
  "query Views = ''type:2''"
| "query Downloads = ''type:0''"

fun filter_query :: "dimension \<Rightarrow> string" where
  "filter_query Views = ''isBot:false AND statistics_type:view''"
| "filter_query Downloads = ''isBot:false AND statistics_type:view AND bundleName:ORIGINAL''"

fun facet_field :: "dimension \<Rightarrow> string" where
  "facet_field Views = ''id''"
| "facet_field Downloads = ''owningItem''"

definition results_per_page :: int where
  "results_per_page = 100"

definition stats_request :: "string \<Rightarrow> string \<Rightarrow> dimension \<Rightarrow> request" where
  "stats_request server shards d =
     \<lparr>url = server @ ''/statistics/select'',
      params =
        [(''q'', PStr (query d)),
         (''fq'', PStr (filter_query d)),
         (''facet'', PStr ''true''),
         (''facet.field'', PStr (facet_field d)),
         (''facet.mincount'', PInt 1),
         (''facet.limit'', PInt 1),
         (''facet.offset'', PInt 0),
         (''stats'', PStr ''true''),
         (''stats.field'', PStr (facet_field d)),
         (''stats.calcdistinct'', PStr ''true''),
         (''shards'', PStr shards),
         (''rows'', PInt 0),
         (''wt'', PStr ''json'')]\<rparr>"

definition page_request :: "string \<Rightarrow> string \<Rightarrow> dimension \<Rightarrow> int \<Rightarrow> request" where
  "page_request server shards d results_current_page =
     \<lparr>url = server @ ''/statistics/select'',
      params =
        [(''q'', PStr (query d)),
         (''fq'', PStr (filter_query d)),
         (''facet'', PStr ''true''),
         (''facet.field'', PStr (facet_field d)),
         (''facet.mincount'', PInt 1),
         (''facet.limit'', PInt results_per_page),
         (''facet.offset'', PInt (results_current_page * results_per_page)),
         (''shards'', PStr shards),
         (''rows'', PInt 0),
         (''wt'', PStr ''json''),
         (''json.nl'', PStr ''map'')]\<rparr>"

text \<open>\<^verbatim>\<open>res.json()["stats"]["stats_fields"][field]["countDistinct"]\<close>\<close>

definition count_distinct :: "dimension \<Rightarrow> response \<Rightarrow> exn + json" where
  "count_distinct d res =
     (case res_json res of
        Inl e \<Rightarrow> Inl e
      | Inr j \<Rightarrow> subscript_path j [''stats'', ''stats_fields'', facet_field d, ''countDistinct''])"

text \<open>
  \<^verbatim>\<open>int(a / b)\<close> for integers \<open>a\<close> and \<open>b > 0\<close>. Python computes \<^verbatim>\<open>a / b\<close> as the
  double nearest to the quotient (ties go to the even significand) and raises
  OverflowError when that double would be \<open>2 ^ 1024\<close> or more; \<^verbatim>\<open>int\<close> then rounds
  toward zero. A positive double is a significand below \<open>2 ^ 53\<close> times a power of two.
\<close>

text \<open>The number of binary digits of \<open>n\<close>.\<close>

fun bit_length :: "nat \<Rightarrow> nat" where
  "bit_length n = (if n = 0 then 0 else Suc (bit_length (n div 2)))"

text \<open>The quotient \<open>a / (b * 2 ^ k)\<close> as a fraction of naturals.\<close>

definition scaled :: "nat \<Rightarrow> nat \<Rightarrow> int \<Rightarrow> nat \<times> nat" where
  "scaled a b k = (if 0 \<le> k then (a, b * 2 ^ nat k) else (a * 2 ^ nat (- k), b))"

text \<open>
  The exponent \<open>k\<close> of the double: the one for which \<open>a / (b * 2 ^ k)\<close> is at least
  \<open>2 ^ 52\<close> and below \<open>2 ^ 53\<close>. The bit lengths give it up to one.
\<close>

definition exponent :: "nat \<Rightarrow> nat \<Rightarrow> int" where
  "exponent a b =
     (if 2 ^ 53 \<le> fst (scaled a b (int (bit_length a) - int (bit_length b) - 53))
                 div snd (scaled a b (int (bit_length a) - int (bit_length b) - 53))
      then int (bit_length a) - int (bit_length b) - 53 + 1
      else int (bit_length a) - int (bit_length b) - 53)"

text \<open>The fraction \<open>n / d\<close> rounded to the nearest natural, a tie to the even one.\<close>

definition round_half_even :: "nat \<Rightarrow> nat \<Rightarrow> nat" where
  "round_half_even n d =
     (if d < 2 * (n mod d) \<or> (2 * (n mod d) = d \<and> odd (n div d)) then n div d + 1
      else n div d)"

definition significand :: "nat \<Rightarrow> nat \<Rightarrow> nat" where
  "significand a b =
     round_half_even (fst (scaled a b (exponent a b))) (snd (scaled a b (exponent a b)))"

text \<open>
  \<^verbatim>\<open>int(a / b)\<close> for naturals: the double is \<open>significand * 2 ^ exponent\<close>; with a
  negative exponent it is below \<open>2 ^ 53\<close> and cannot overflow.
\<close>

definition truncated_quotient :: "nat \<Rightarrow> nat \<Rightarrow> exn + nat" where
  "truncated_quotient a b =
     (if a = 0 then Inr 0
      else if 0 \<le> exponent a b then
        (if 2 ^ 1024 \<le> significand a b * 2 ^ nat (exponent a b) then Inl OverflowError
         else Inr (significand a b * 2 ^ nat (exponent a b)))
      else Inr (significand a b div 2 ^ nat (- exponent a b)))"

text \<open>A negative dividend gives the negated double, which \<^verbatim>\<open>int\<close> rounds toward zero too.\<close>

definition int_truediv :: "int \<Rightarrow> int \<Rightarrow> exn + int" where
  "int_truediv a b =
     (if 0 \<le> a then
        (case truncated_quotient (nat a) (nat b) of Inl e \<Rightarrow> Inl e | Inr q \<Rightarrow> Inr (int q))
      else
        (case truncated_quotient (nat (- a)) (nat b) of
           Inl e \<Rightarrow> Inl e
         | Inr q \<Rightarrow> Inr (- int q)))"

text \<open>
  \<^verbatim>\<open>results_num_pages = int(results_totalNumFacets / results_per_page)\<close>, outside the
  \<^verbatim>\<open>try\<close>. A boolean divides as 0 or 1; \<^verbatim>\<open>None\<close>, strings, lists and dicts raise
  TypeError.
\<close>

fun results_num_pages :: "json \<Rightarrow> exn + int" where
  "results_num_pages (JInt n) = int_truediv n results_per_page"
| "results_num_pages (JBool b) = int_truediv (if b then 1 else 0) results_per_page"
| "results_num_pages v = Inl TypeError"

text \<open>
  One page: \<^verbatim>\<open>requests.get\<close>, then \<^verbatim>\<open>res.json()["facet_counts"]["facet_fields"]\<close>, then
  \<^verbatim>\<open>[field].items()\<close>.
\<close>

definition page_items :: "solr \<Rightarrow> dimension \<Rightarrow> request \<Rightarrow> exn + (string \<times> json) list" where
  "page_items solr d rq =
     (case solr rq of
        None \<Rightarrow> Inl ConnectionError
      | Some res \<Rightarrow>
          (case res_json res of
             Inl e \<Rightarrow> Inl e
           | Inr j \<Rightarrow>
               (case subscript_path j [''facet_counts'', ''facet_fields'', facet_field d] of
                  Inl e \<Rightarrow> Inl e
                | Inr m \<Rightarrow> py_items m)))"

text \<open>
  The \<^verbatim>\<open>while results_current_page <= results_num_pages\<close> loop. \<open>data\<close> is the list
  the loop appends to; after the commit the program clears it, so the next round starts
  from the empty list.
\<close>

function page_loop ::
  "string \<Rightarrow> string \<Rightarrow> solr \<Rightarrow> dimension \<Rightarrow> int \<Rightarrow> int \<Rightarrow>
   (string \<times> json) list \<Rightarrow> table option \<Rightarrow> run" where
  "page_loop server shards solr d num_pages current_page data db =
     (if current_page \<le> num_pages then
        (case page_items solr d (page_request server shards d current_page) of
           Inl e \<Rightarrow>
             \<lparr>trace = [Say (Progress d (current_page + 1) (num_pages + 1)),
                       Get (page_request server shards d current_page)],
              store = db, raised = Some e\<rparr>
         | Inr items \<Rightarrow>
             (case execute_values d (data @ items) db of
                Inl e \<Rightarrow>
                  \<lparr>trace = [Say (Progress d (current_page + 1) (num_pages + 1)),
                            Get (page_request server shards d current_page),
                            Execute d (data @ items)],
                   store = db, raised = Some e\<rparr>
              | Inr db' \<Rightarrow>
                  (page_loop server shards solr d num_pages (current_page + 1) [] db')
                  \<lparr>trace :=
                     [Say (Progress d (current_page + 1) (num_pages + 1)),
                      Get (page_request server shards d current_page),
                      Execute d (data @ items),
                      Commit]
                     @ trace (page_loop server shards solr d num_pages (current_page + 1) [] db')\<rparr>))
      else \<lparr>trace = [], store = db, raised = None\<rparr>)"
  by pat_completeness auto
termination
  by (relation "measure (\<lambda>(server, shards, solr, d, num_pages, current_page, data, db).
        nat (num_pages + 1 - current_page))") auto

definition index_dimension :: "string \<Rightarrow> string \<Rightarrow> solr \<Rightarrow> dimension \<Rightarrow> table option \<Rightarrow> run" where
  "index_dimension server shards solr d db =
     (case solr (stats_request server shards d) of
        None \<Rightarrow>
          \<lparr>trace = [Get (stats_request server shards d)], store = db,
           raised = Some ConnectionError\<rparr>
      | Some res \<Rightarrow>
          (case count_distinct d res of
             Inl e \<Rightarrow>
               (if e = TypeError then
                  \<lparr>trace = [Get (stats_request server shards d), Say (NothingToIndex d)],
                   store = db, raised = Some (SystemExit 0)\<rparr>
                else
                  \<lparr>trace = [Get (stats_request server shards d)], store = db,
                   raised = Some e\<rparr>)
           | Inr total_facets \<Rightarrow>
               (case results_num_pages total_facets of
                  Inl e \<Rightarrow>
                    \<lparr>trace = [Get (stats_request server shards d)], store = db,
                     raised = Some e\<rparr>
                | Inr num_pages \<Rightarrow>
                    (page_loop server shards solr d num_pages 0 [] db)
                    \<lparr>trace := Get (stats_request server shards d)
                       # trace (page_loop server shards solr d num_pages 0 [] db)\<rparr>)))"

definition index_views :: "string \<Rightarrow> string \<Rightarrow> solr \<Rightarrow> table option \<Rightarrow> run" where
  "index_views server shards solr db = index_dimension server shards solr Views db"

definition index_downloads :: "string \<Rightarrow> string \<Rightarrow> solr \<Rightarrow> table option \<Rightarrow> run" where
  "index_downloads server shards solr db = index_dimension server shards solr Downloads db"

section \<open>The module body\<close>

text \<open>
  Create the table and commit, resolve the shards once, then \<^verbatim>\<open>index_views()\<close> and
  \<^verbatim>\<open>index_downloads()\<close>. An exception raised by one step skips every later step.
\<close>

definition main :: "string \<Rightarrow> solr \<Rightarrow> table option \<Rightarrow> run" where
  "main server solr db =
     (case snd (get_statistics_shards server solr) of
        Inl e \<Rightarrow>
          \<lparr>trace = [CreateTable, Commit] @ fst (get_statistics_shards server solr),
           store = create_table db, raised = Some e\<rparr>
      | Inr shards \<Rightarrow>
          (case raised (index_views server shards solr (create_table db)) of
             Some e \<Rightarrow>
               \<lparr>trace = [CreateTable, Commit] @ fst (get_statistics_shards server solr)
                  @ trace (index_views server shards solr (create_table db)),
                store = store (index_views server shards solr (create_table db)),
                raised = Some e\<rparr>
           | None \<Rightarrow>
               (index_downloads server shards solr
                  (store (index_views server shards solr (create_table db))))
               \<lparr>trace := [CreateTable, Commit] @ fst (get_statistics_shards server solr)
                  @ trace (index_views server shards solr (create_table db))
                  @ trace (index_downloads server shards solr
                      (store (index_views server shards solr (create_table db))))\<rparr>))"

section \<open>Reading a trace\<close>

text \<open>The row stored for an identifier when a run has ended.\<close>

definition stored :: "run \<Rightarrow> string \<Rightarrow> row option" where
  "stored r k = (case store r of None \<Rightarrow> None | Some t \<Rightarrow> t k)"


text \<open>The dimension a step belongs to, read from the step itself.\<close>

fun event_dimension :: "event \<Rightarrow> dimension option" where
  "event_dimension (Get rq) =
     (if map_of (params rq) ''q'' = Some (PStr (query Views)) then Some Views
      else if map_of (params rq) ''q'' = Some (PStr (query Downloads)) then Some Downloads
      else None)"
| "event_dimension (Say (NothingToIndex d)) = Some d"
| "event_dimension (Say (Progress d p n)) = Some d"
| "event_dimension (Execute d rows) = Some d"
| "event_dimension CreateTable = None"
| "event_dimension Commit = None"

definition touches :: "dimension \<Rightarrow> event list \<Rightarrow> bool" where
  "touches d es = list_ex (\<lambda>e. event_dimension e = Some d) es"

text \<open>The requests sent, in order.\<close>

fun requests_of :: "event list \<Rightarrow> request list" where
  "requests_of [] = []"
| "requests_of (Get rq # es) = rq # requests_of es"
| "requests_of (e # es) = requests_of es"

text \<open>The batches handed to \<^verbatim>\<open>execute_values\<close>, in order.\<close>

fun batches_of :: "event list \<Rightarrow> (string \<times> json) list list" where
  "batches_of [] = []"
| "batches_of (Execute d rows # es) = rows # batches_of es"
| "batches_of (e # es) = batches_of es"

text \<open>The number of commits.\<close>

fun commits_of :: "event list \<Rightarrow> nat" where
  "commits_of [] = 0"
| "commits_of (Commit # es) = Suc (commits_of es)"
| "commits_of (e # es) = commits_of es"

text \<open>
  The steps of the page loop of dimension \<open>d\<close> from page \<open>k\<close> on: each page is announced,
  requested at its own index, upserted and committed, in this order and with nothing in
  between, and the next page is page \<open>k + 1\<close>. The steps may stop after a request (the
  fetch raised) or after an upsert (the statement raised); they never hold a commit that
  does not directly follow the upsert of a page.
\<close>

fun pages_in_order :: "string \<Rightarrow> string \<Rightarrow> dimension \<Rightarrow> int \<Rightarrow> int \<Rightarrow> event list \<Rightarrow> bool" where
  "pages_in_order server shards d num k es =
     (case es of
        [] \<Rightarrow> True
      | e1 # es1 \<Rightarrow>
          e1 = Say (Progress d (k + 1) (num + 1)) \<and>
          (case es1 of
             [] \<Rightarrow> False
           | e2 # es2 \<Rightarrow>
               e2 = Get (page_request server shards d k) \<and>
               (case es2 of
                  [] \<Rightarrow> True
                | e3 # es3 \<Rightarrow>
                    (case e3 of Execute d' rows \<Rightarrow> d' = d | _ \<Rightarrow> False) \<and>
                    (case es3 of
                       [] \<Rightarrow> True
                     | e4 # es4 \<Rightarrow>
                         e4 = Commit \<and> pages_in_order server shards d num (k + 1) es4))))"

text \<open>After the first step of the downloads dimension no step of the views dimension follows.\<close>

definition views_before_downloads :: "event list \<Rightarrow> bool" where
  "views_before_downloads es =
     (\<not> touches Views (dropWhile (\<lambda>e. event_dimension e \<noteq> Some Downloads) es))"

text \<open>
  The steps of one dimension: the distinct-count request, then either nothing (the
  request or the reading of its answer raised, or the loop had no round), or the message
  of an empty dimension, or the page loop from page 0. The number of pages is read back
  from the first announcement.
\<close>

definition dimension_in_order :: "string \<Rightarrow> string \<Rightarrow> dimension \<Rightarrow> event list \<Rightarrow> bool" where
  "dimension_in_order server shards d es =
     (case es of
        [] \<Rightarrow> False
      | e # rest \<Rightarrow>
          e = Get (stats_request server shards d) \<and>
          (case rest of
             [] \<Rightarrow> True
           | Say (NothingToIndex d') # rest' \<Rightarrow> d' = d \<and> rest' = []
           | Say (Progress d' p n) # rest' \<Rightarrow> pages_in_order server shards d (n - 1) 0 rest
           | _ \<Rightarrow> False))"

text \<open>
  Every batch is the answer to the page request sent directly before it: an upsert
  follows a request made with \<^verbatim>\<open>facet.limit\<close> set to the page size, and its rows are
  the items of that request's answer, no more and no less.
\<close>

fun own_batches :: "solr \<Rightarrow> event list \<Rightarrow> bool" where
  "own_batches solr [] = True"
| "own_batches solr (Get rq # Execute d rows # es) =
     (page_items solr d rq = Inr rows \<and>
      map_of (params rq) ''facet.limit'' = Some (PInt results_per_page) \<and>
      own_batches solr es)"
| "own_batches solr (Execute d rows # es) = False"
| "own_batches solr (e # es) = own_batches solr es"

section \<open>Example servers\<close>

text \<open>
  A Solr server given by its answer to the core status request, its answer to the
  distinct-count request of each dimension, and its answer to the page request of each
  dimension at each offset. The examples below are instances of it.
\<close>

definition ok_response :: "json \<Rightarrow> response option" where
  "ok_response j = Some \<lparr>status_code = 200, body = Some j\<rparr>"

definition stats_body :: "dimension \<Rightarrow> json \<Rightarrow> json" where
  "stats_body d v = JObj [(''stats'', JObj [(''stats_fields'', JObj [(facet_field d, v)])])]"

definition facet_body :: "dimension \<Rightarrow> (string \<times> json) list \<Rightarrow> json" where
  "facet_body d kvs =
     JObj [(''facet_counts'', JObj [(''facet_fields'', JObj [(facet_field d, JObj kvs)])])]"

definition example_solr ::
  "response option \<Rightarrow> (dimension \<Rightarrow> response option) \<Rightarrow>
   (dimension \<Rightarrow> int \<Rightarrow> response option) \<Rightarrow> solr" where
  "example_solr cores stats pages rq =
     (if map_of (params rq) ''action'' = Some (PStr ''STATUS'') then cores
      else if map_of (params rq) ''json.nl'' = None then
        (if map_of (params rq) ''facet.field'' = Some (PStr ''id'') then stats Views
         else stats Downloads)
      else
        (case map_of (params rq) ''facet.offset'' of
           Some (PInt n) \<Rightarrow>
             (if map_of (params rq) ''facet.field'' = Some (PStr ''id'') then pages Views n
              else pages Downloads n)
         | _ \<Rightarrow> None))"

text \<open>Two year cores beside the base core and one unrelated core.\<close>

definition example_cores :: "response option" where
  "example_cores =
     ok_response (JObj [(''status'',
       JObj [(''statistics'', JObj []), (''statistics-2018'', JObj []),
             (''search'', JObj []), (''statistics-2017'', JObj [])])])"

text \<open>Core names that match and names that nearly match.\<close>

definition mixed_cores :: "response option" where
  "mixed_cores =
     ok_response (JObj [(''status'',
       JObj [(''statistics'', JObj []), (''statistics-2018'', JObj []),
             (''statistics-18'', JObj []), (''statistics-20189'', JObj []),
             (''statistics-201x'', JObj []), (''xstatistics-2016'', JObj []),
             (''statistics-2010'', JObj []), (''search'', JObj [])])])"

text \<open>A core whose name is a year core's name with a newline at its end.\<close>

definition newline_cores :: "response option" where
  "newline_cores =
     ok_response (JObj [(''status'',
       JObj [(''statistics'', JObj []), (''statistics-2018'' @ [CHR 0x0A], JObj [])])])"

text \<open>No year core at all: the statistics have not been sharded.\<close>

definition plain_cores :: "response option" where
  "plain_cores =
     ok_response (JObj [(''status'', JObj [(''statistics'', JObj []), (''search'', JObj [])])])"

text \<open>Two items with views, one of them with downloads.\<close>

definition example_stats :: "dimension \<Rightarrow> response option" where
  "example_stats d =
     ok_response (stats_body d (JObj [(''countDistinct'', JInt (if d = Views then 2 else 1))]))"

definition example_pages :: "dimension \<Rightarrow> int \<Rightarrow> response option" where
  "example_pages d offset =
     ok_response (facet_body d
       (if offset \<noteq> 0 then []
        else if d = Views then [(''A'', JInt 5), (''B'', JInt 3)]
        else [(''A'', JInt 2)]))"

text \<open>The same server when no document counts as a view: Solr reports \<^verbatim>\<open>null\<close>.\<close>

definition no_views_stats :: "dimension \<Rightarrow> response option" where
  "no_views_stats d = (if d = Views then ok_response (stats_body d JNull) else example_stats d)"

text \<open>A core status request answered with status 500 and an HTML body.\<close>

definition failing_cores :: "response option" where
  "failing_cores = Some \<lparr>status_code = 500, body = None\<rparr>"

text \<open>A dimension with 200 distinct items: an exact multiple of the page size.\<close>

definition two_hundred_stats :: "dimension \<Rightarrow> response option" where
  "two_hundred_stats d = ok_response (stats_body d (JObj [(''countDistinct'', JInt 200)]))"

text \<open>
  A dimension whose distinct count is \<open>100 * 2 ^ 47 + 99\<close>, and a server whose every page
  is empty.
\<close>

definition huge_stats :: "dimension \<Rightarrow> response option" where
  "huge_stats d =
     ok_response (stats_body d (JObj [(''countDistinct'', JInt 14073748835532899)]))"

definition empty_pages :: "dimension \<Rightarrow> int \<Rightarrow> response option" where
  "empty_pages d offset = ok_response (facet_body d [])"

text \<open>A distinct-count answer without any of the keys the program subscripts.\<close>

definition keyless_stats :: "dimension \<Rightarrow> response option" where
  "keyless_stats d = ok_response (JObj [])"

declare page_loop.simps [simp del]

declare bit_length.simps [simp del]

declare pages_in_order.simps [simp del]

section \<open>The upsert\<close>

lemma upsert_keeps_downloads:
  assumes "t E = Some r"
  shows "map_option downloads (upsert Views kv t E) = Some (downloads r)"
  using assms by (auto simp: upsert_def split: option.splits)

lemma upsert_keeps_views:
  assumes "t E = Some r"
  shows "map_option views (upsert Downloads kv t E) = Some (views r)"
  using assms by (auto simp: upsert_def split: option.splits)

lemma fold_upsert_keeps_downloads:
  assumes "t E = Some r"
  shows "map_option downloads (fold (upsert Views) ps t E) = Some (downloads r)"
  using assms
proof (induction ps arbitrary: t r)
  case Nil
  then show ?case by simp
next
  case (Cons p ps)
  have "map_option downloads (upsert Views p t E) = Some (downloads r)"
    using Cons.prems by (rule upsert_keeps_downloads)
  then obtain r' where r': "upsert Views p t E = Some r'" "downloads r' = downloads r"
    by auto
  have "map_option downloads (fold (upsert Views) ps (upsert Views p t) E) = Some (downloads r')"
    using r'(1) by (rule Cons.IH)
  with r'(2) show ?case by simp
qed

lemma fold_upsert_keeps_views:
  assumes "t E = Some r"
  shows "map_option views (fold (upsert Downloads) ps t E) = Some (views r)"
  using assms
proof (induction ps arbitrary: t r)
  case Nil
  then show ?case by simp
next
  case (Cons p ps)
  have "map_option views (upsert Downloads p t E) = Some (views r)"
    using Cons.prems by (rule upsert_keeps_views)
  then obtain r' where r': "upsert Downloads p t E = Some r'" "views r' = views r"
    by auto
  have "map_option views (fold (upsert Downloads) ps (upsert Downloads p t) E) = Some (views r')"
    using r'(1) by (rule Cons.IH)
  with r'(2) show ?case by simp
qed

text \<open>
  Claim C4. An entity \<open>E\<close> has a stored row \<open>r\<close>. Whenever the batched upsert of a
  views page succeeds, \<open>E\<close> still has a row and its downloads value is the one of \<open>r\<close>;
  whenever the batched upsert of a downloads page succeeds, \<open>E\<close> still has a row and its
  views value is the one of \<open>r\<close>. This holds for every page, whether or not it mentions
  \<open>E\<close>.
\<close>

theorem upsert_column_independence:
  assumes "t E = Some r"
  shows "(execute_values Views rows (Some t) = Inr db' \<longrightarrow>
            (\<exists>t'. db' = Some t' \<and> map_option downloads (t' E) = Some (downloads r))) \<and>
         (execute_values Downloads rows (Some t) = Inr db' \<longrightarrow>
            (\<exists>t'. db' = Some t' \<and> map_option views (t' E) = Some (views r)))"
proof -
  have v: "map_option downloads (fold (upsert Views) ps t E) = Some (downloads r)" for ps
    using assms by (rule fold_upsert_keeps_downloads)
  have d: "map_option views (fold (upsert Downloads) ps t E) = Some (views r)" for ps
    using assms by (rule fold_upsert_keeps_views)
  show ?thesis
    using assms v d by (auto simp: execute_values_def split: sum.splits if_splits)
qed

text \<open>
  The theorem at a stored row (views 4, downloads 9) and the page \<open>[(E, 7)]\<close>: the
  views upsert ends with (7, 9), the downloads upsert with (4, 7).
\<close>

theorem upsert_column_independence_witness:
  "(Map.empty(''E'' \<mapsto> \<lparr>views = 4, downloads = 9\<rparr>)) ''E'' = Some \<lparr>views = 4, downloads = 9\<rparr> \<and>
   execute_values Views [(''E'', JInt 7)] (Some (Map.empty(''E'' \<mapsto> \<lparr>views = 4, downloads = 9\<rparr>)))
     = Inr (Some (Map.empty(''E'' \<mapsto> \<lparr>views = 7, downloads = 9\<rparr>))) \<and>
   execute_values Downloads [(''E'', JInt 7)] (Some (Map.empty(''E'' \<mapsto> \<lparr>views = 4, downloads = 9\<rparr>)))
     = Inr (Some (Map.empty(''E'' \<mapsto> \<lparr>views = 4, downloads = 7\<rparr>))) \<and>
   map_option downloads ((Map.empty(''E'' \<mapsto> \<lparr>views = 7, downloads = 9\<rparr>)) ''E'') = Some 9 \<and>
   map_option views ((Map.empty(''E'' \<mapsto> \<lparr>views = 4, downloads = 7\<rparr>)) ''E'') = Some 4"
  using upsert_column_independence [of "Map.empty(''E'' \<mapsto> \<lparr>views = 4, downloads = 9\<rparr>)" "''E''"
      "\<lparr>views = 4, downloads = 9\<rparr>" "[(''E'', JInt 7)]"]
  by (simp add: execute_values_def upsert_def)

text \<open>
  Claim C5. The table is created empty. The views page \<open>[(A, 5), (B, 3)]\<close> is upserted,
  then the downloads page \<open>[(A, 2)]\<close>. Both statements succeed, and the table then holds
  exactly two rows: \<open>A\<close> with views 5 and downloads 2, and \<open>B\<close> with views 3 and
  downloads 0, the default of the column.
\<close>

theorem merge_views_then_downloads:
  "\<exists>t1 t2.
     execute_values Views [(''A'', JInt 5), (''B'', JInt 3)] (create_table None) = Inr (Some t1) \<and>
     execute_values Downloads [(''A'', JInt 2)] (Some t1) = Inr (Some t2) \<and>
     t2 ''A'' = Some \<lparr>views = 5, downloads = 2\<rparr> \<and>
     t2 ''B'' = Some \<lparr>views = 3, downloads = 0\<rparr> \<and>
     dom t2 = {''A'', ''B''}"
  by (simp add: execute_values_def create_table_def upsert_def default_row_def)

section \<open>The number of pages\<close>

text \<open>
  Below \<open>100 * 2 ^ 47\<close> the double division followed by \<^verbatim>\<open>int\<close> is the integer
  quotient: the exponent is at most \<open>-6\<close>, so the double lies on a grid of step at most
  \<open>1 / 64\<close>, and a fraction of at most \<open>99 / 100\<close> is never rounded up to the next integer.
\<close>

lemma bit_length_le: "n < 2 ^ k \<Longrightarrow> bit_length n \<le> k"
proof (induction k arbitrary: n)
  case 0
  then show ?case by (simp add: bit_length.simps)
next
  case (Suc k)
  show ?case
  proof (cases "n = 0")
    case True
    then show ?thesis by (simp add: bit_length.simps)
  next
    case False
    from Suc.prems have "n div 2 < 2 ^ k" by simp
    then have "bit_length (n div 2) \<le> k" by (rule Suc.IH)
    with False show ?thesis by (subst bit_length.simps) simp
  qed
qed

lemma bit_length_100: "bit_length 100 = 7"
  by (simp add: bit_length.simps)

lemma exponent_small:
  assumes "a < 100 * 2 ^ 47"
  shows "exponent a 100 \<le> - 6"
proof -
  have "a < 2 ^ 54" using assms by simp
  then have l: "bit_length a \<le> 54" by (rule bit_length_le)
  show ?thesis
  proof (cases "bit_length a = 54")
    case True
    have "a * 64 < 100 * 2 ^ 53" using assms by simp
    then have "a * 64 div 100 < 2 ^ 53"
      by (simp add: less_mult_imp_div_less)
    with True show ?thesis
      by (simp add: exponent_def scaled_def bit_length_100)
  next
    case False
    with l have "bit_length a \<le> 53" by simp
    then show ?thesis
      by (simp add: exponent_def bit_length_100)
  qed
qed

lemma round_half_even_scaled:
  assumes "64 \<le> P"
  shows "round_half_even (a * P) 100 div P = a div 100"
proof -
  define Q where "Q = a div 100"
  define R where "R = a mod 100"
  define q where "q = a * P div 100"
  define r where "r = a * P mod 100"
  have a: "a = 100 * Q + R" and R: "R < 100"
    by (simp_all add: Q_def R_def)
  have aP: "a * P = 100 * q + r" and r: "r < 100"
    by (simp_all add: q_def r_def)
  define X where "X = Q * P"
  define Y where "Y = R * P"
  have aP': "a * P = 100 * X + Y"
    using a by (simp add: algebra_simps X_def Y_def)
  have RP: "Y \<le> 99 * P"
    using R by (simp add: Y_def)
  have P: "64 \<le> P" by (rule assms)
  have lower: "X \<le> q"
    using aP aP' r by linarith
  have upper_q: "q < X + P"
    using aP aP' RP P by linarith
  have upper_q1: "q + 1 < X + P" if "50 \<le> r"
    using aP aP' RP P that by linarith
  have XP: "X + P = (Q + 1) * P"
    by (simp add: X_def)
  have c: "round_half_even (a * P) 100 = q \<or> (round_half_even (a * P) 100 = q + 1 \<and> 50 \<le> r)"
    unfolding round_half_even_def q_def r_def by (cases "100 < 2 * (a * P mod 100)") auto
  have lo: "X \<le> round_half_even (a * P) 100"
    using c lower by linarith
  have hi: "round_half_even (a * P) 100 < X + P"
    using c upper_q upper_q1 by linarith
  have lo': "P * Q \<le> round_half_even (a * P) 100"
    using lo by (simp add: X_def mult.commute)
  have hi': "round_half_even (a * P) 100 < P * Suc Q"
    using hi by (simp add: X_def mult.commute)
  have "round_half_even (a * P) 100 div P = Q"
    using lo' hi' by (rule div_nat_eqI)
  then show ?thesis by (simp add: Q_def)
qed

lemma truncated_quotient_small:
  assumes "a < 100 * 2 ^ 47"
  shows "truncated_quotient a 100 = Inr (a div 100)"
proof (cases "a = 0")
  case True
  then show ?thesis by (simp add: truncated_quotient_def)
next
  case False
  from exponent_small [OF assms] have k: "exponent a 100 \<le> - 6" .
  define j where "j = nat (- exponent a 100)"
  from k have j: "6 \<le> j" by (simp add: j_def)
  have "(2::nat) ^ 6 \<le> 2 ^ j" using j by (intro power_increasing) simp_all
  then have P: "64 \<le> (2::nat) ^ j" by simp
  from k have s: "scaled a 100 (exponent a 100) = (a * 2 ^ j, 100)"
    by (simp add: scaled_def j_def)
  have "significand a 100 div 2 ^ j = a div 100"
    unfolding significand_def s fst_conv snd_conv using P by (rule round_half_even_scaled)
  with False k show ?thesis
    by (simp add: truncated_quotient_def j_def)
qed

lemma int_truediv_small:
  assumes "0 \<le> N" and "N < 100 * 2 ^ 47"
  shows "int_truediv N 100 = Inr (N div 100)"
proof -
  have "nat N < 100 * 2 ^ 47" using assms by simp
  then have "truncated_quotient (nat N) 100 = Inr (nat N div 100)"
    by (rule truncated_quotient_small)
  moreover have "int (nat N div 100) = N div 100"
    using assms(1) by (simp add: zdiv_int)
  ultimately show ?thesis
    using assms(1) by (simp add: int_truediv_def)
qed

lemma results_num_pages_small:
  assumes "0 \<le> N" and "N < 100 * 2 ^ 47"
  shows "results_num_pages (JInt N) = Inr (N div 100)"
  using int_truediv_small [OF assms] by (simp add: results_per_page_def)

lemma truncated_quotient_error: "truncated_quotient a b = Inl e \<Longrightarrow> e = OverflowError"
  by (auto simp: truncated_quotient_def split: if_splits)

lemma int_truediv_error: "int_truediv a b = Inl e \<Longrightarrow> e = OverflowError"
  by (auto simp: int_truediv_def split: if_splits sum.splits dest: truncated_quotient_error)

section \<open>Which exceptions a step can raise\<close>

lemma py_getitem_error: "py_getitem v k = Inl e \<Longrightarrow> e = KeyError \<or> e = TypeError"
  by (cases v) (auto split: option.splits)

lemma subscript_path_error: "subscript_path v ks = Inl e \<Longrightarrow> e = KeyError \<or> e = TypeError"
proof (induction ks arbitrary: v)
  case Nil
  then show ?case by simp
next
  case (Cons k ks)
  then show ?case
    by (auto split: sum.splits dest: py_getitem_error)
qed


lemma py_items_error: "py_items v = Inl e \<Longrightarrow> e = AttributeError"
  by (cases v) auto


lemma res_json_error: "res_json res = Inl e \<Longrightarrow> e = JSONDecodeError"
  by (auto simp: res_json_def split: option.splits)


lemma count_distinct_error:
  "count_distinct d res = Inl e \<Longrightarrow> e = JSONDecodeError \<or> e = KeyError \<or> e = TypeError"
  by (auto simp: count_distinct_def simp del: subscript_path.simps split: sum.splits
      dest: res_json_error subscript_path_error)

lemma results_num_pages_error:
  "results_num_pages v = Inl e \<Longrightarrow> e = TypeError \<or> e = OverflowError"
  by (cases v) (auto dest: int_truediv_error)

lemma page_items_error:
  "page_items solr d rq = Inl e \<Longrightarrow>
     e = ConnectionError \<or> e = JSONDecodeError \<or> e = KeyError \<or> e = TypeError \<or>
     e = AttributeError"
  by (auto simp: page_items_def simp del: subscript_path.simps split: option.splits sum.splits
      dest: res_json_error subscript_path_error py_items_error)

lemma int_param_error: "int_param x = Inl e \<Longrightarrow> e = DataError"
  by (cases x rule: int_param.cases) (auto split: if_splits)

lemma int_params_error: "int_params xs = Inl e \<Longrightarrow> e = DataError"
  by (induction xs) (auto split: sum.splits dest: int_param_error)

lemma execute_values_error:
  "execute_values d rows db = Inl e \<Longrightarrow> e = UndefinedTable \<or> e = DataError"
  by (auto simp: execute_values_def split: if_splits option.splits sum.splits
      dest: int_params_error)

text \<open>The page loop never leaves through \<^verbatim>\<open>exit\<close>.\<close>

lemma page_loop_no_exit:
  "raised (page_loop server shards solr d num cur data db) \<noteq> Some (SystemExit n)"
proof (induction server shards solr d num cur data db rule: page_loop.induct)
  case (1 server shards solr d num cur data db)
  show ?case
  proof (cases "cur \<le> num")
    case False
    then show ?thesis by (subst page_loop.simps) simp
  next
    case True
    show ?thesis
    proof (cases "page_items solr d (page_request server shards d cur)")
      case (Inl e)
      with True page_items_error [OF Inl] show ?thesis
        by (subst page_loop.simps) auto
    next
      case items: (Inr items)
      show ?thesis
      proof (cases "execute_values d (data @ items) db")
        case (Inl e)
        with True items execute_values_error [OF Inl] show ?thesis
          by (subst page_loop.simps) auto
      next
        case (Inr db')
        with True items "1.IH" [OF True items Inr] show ?thesis
          by (subst page_loop.simps) simp
      qed
    qed
  qed
qed

section \<open>The page loop, round by round\<close>

text \<open>
  One round of the loop either finds the loop condition false, or fails in the fetch, or
  fails in the upsert, or commits the page and goes on with the next index and an empty
  list.
\<close>

lemma page_loop_cases [case_names stop fetch upsert commit]:
  obtains
    "\<not> cur \<le> num"
    "page_loop server shards solr d num cur data db = \<lparr>trace = [], store = db, raised = None\<rparr>"
  | e where "cur \<le> num"
    "page_items solr d (page_request server shards d cur) = Inl e"
    "page_loop server shards solr d num cur data db =
       \<lparr>trace = [Say (Progress d (cur + 1) (num + 1)), Get (page_request server shards d cur)],
        store = db, raised = Some e\<rparr>"
  | items e where "cur \<le> num"
    "page_items solr d (page_request server shards d cur) = Inr items"
    "execute_values d (data @ items) db = Inl e"
    "page_loop server shards solr d num cur data db =
       \<lparr>trace = [Say (Progress d (cur + 1) (num + 1)), Get (page_request server shards d cur),
                 Execute d (data @ items)],
        store = db, raised = Some e\<rparr>"
  | items db' where "cur \<le> num"
    "page_items solr d (page_request server shards d cur) = Inr items"
    "execute_values d (data @ items) db = Inr db'"
    "page_loop server shards solr d num cur data db =
       \<lparr>trace = [Say (Progress d (cur + 1) (num + 1)), Get (page_request server shards d cur),
                 Execute d (data @ items), Commit]
                @ trace (page_loop server shards solr d num (cur + 1) [] db'),
        store = store (page_loop server shards solr d num (cur + 1) [] db'),
        raised = raised (page_loop server shards solr d num (cur + 1) [] db')\<rparr>"
proof (cases "cur \<le> num")
  case False
  then show ?thesis using that(1) by (simp add: page_loop.simps [of _ _ _ _ num cur])
next
  case True
  show ?thesis
  proof (cases "page_items solr d (page_request server shards d cur)")
    case (Inl e)
    with True show ?thesis using that(2) [of e] by (simp add: page_loop.simps [of _ _ _ _ num cur])
  next
    case items: (Inr items)
    show ?thesis
    proof (cases "execute_values d (data @ items) db")
      case (Inl e)
      with True items show ?thesis using that(3) [of items e]
        by (simp add: page_loop.simps [of _ _ _ _ num cur])
    next
      case (Inr db')
      with True items show ?thesis using that(4) [of items db']
        by (simp add: page_loop.simps [of _ _ _ _ num cur])
    qed
  qed
qed


lemma page_loop_requests:
  "raised (page_loop server shards solr d num cur data db) = None \<Longrightarrow>
   requests_of (trace (page_loop server shards solr d num cur data db)) =
     map (page_request server shards d) [cur..num]"
proof (induction server shards solr d num cur data db rule: page_loop.induct)
  case (1 server shards solr d num cur data db)
  show ?case
  proof (cases rule: page_loop_cases [of cur num server shards solr d data db])
    case stop
    then show ?thesis by simp
  next
    case (fetch e)
    with "1.prems" show ?thesis by simp
  next
    case (upsert items e)
    with "1.prems" show ?thesis by simp
  next
    case (commit items db')
    from commit(4) "1.prems"
    have "raised (page_loop server shards solr d num (cur + 1) [] db') = None" by simp
    from "1.IH" [OF commit(1,2,3) this] commit(1,4) show ?thesis
      by (simp add: upto_rec1 [of cur num])
  qed
qed

lemma page_loop_in_order:
  "pages_in_order server shards d num cur (trace (page_loop server shards solr d num cur data db))"
proof (induction server shards solr d num cur data db rule: page_loop.induct)
  case (1 server shards solr d num cur data db)
  show ?case
  proof (cases rule: page_loop_cases [of cur num server shards solr d data db])
    case stop
    then show ?thesis by (simp add: pages_in_order.simps)
  next
    case (fetch e)
    then show ?thesis by (simp add: pages_in_order.simps)
  next
    case (upsert items e)
    then show ?thesis by (simp add: pages_in_order.simps)
  next
    case (commit items db')
    from "1.IH" [OF commit(1,2,3)] commit(4) show ?thesis
      by (simp add: pages_in_order.simps [of server shards d num cur])
  qed
qed

lemma page_loop_commits:
  "raised (page_loop server shards solr d num cur data db) = None \<Longrightarrow>
   commits_of (trace (page_loop server shards solr d num cur data db)) = nat (num + 1 - cur)"
proof (induction server shards solr d num cur data db rule: page_loop.induct)
  case (1 server shards solr d num cur data db)
  show ?case
  proof (cases rule: page_loop_cases [of cur num server shards solr d data db])
    case stop
    then show ?thesis by simp
  next
    case (fetch e)
    with "1.prems" show ?thesis by simp
  next
    case (upsert items e)
    with "1.prems" show ?thesis by simp
  next
    case (commit items db')
    from commit(4) "1.prems"
    have "raised (page_loop server shards solr d num (cur + 1) [] db') = None" by simp
    from "1.IH" [OF commit(1,2,3) this] commit(1,4) show ?thesis
      by (simp add: nat_diff_distrib' Suc_nat_eq_nat_zadd1) 
  qed
qed

lemma page_request_limit:
  "map_of (params (page_request server shards d k)) ''facet.limit'' = Some (PInt results_per_page)"
  by (simp add: page_request_def)

lemma page_loop_own_batches:
  "data = [] \<Longrightarrow> own_batches solr (trace (page_loop server shards solr d num cur data db))"
proof (induction server shards solr d num cur data db rule: page_loop.induct)
  case (1 server shards solr d num cur data db)
  show ?case
  proof (cases rule: page_loop_cases [of cur num server shards solr d data db])
    case stop
    then show ?thesis by simp
  next
    case (fetch e)
    then show ?thesis by simp
  next
    case (upsert items e)
    with "1.prems" show ?thesis by (simp add: page_request_limit)
  next
    case (commit items db')
    from "1.IH" [OF commit(1,2,3)] commit(2,4) "1.prems" show ?thesis
      by (simp add: page_request_limit)
  qed
qed

lemma page_request_dimension: "event_dimension (Get (page_request server shards d k)) = Some d"
  by (cases d) (simp_all add: page_request_def)

lemma stats_request_dimension: "event_dimension (Get (stats_request server shards d)) = Some d"
  by (cases d) (simp_all add: stats_request_def)

lemma page_loop_dimension:
  "e \<in> set (trace (page_loop server shards solr d num cur data db)) \<Longrightarrow>
   event_dimension e = Some d \<or> event_dimension e = None"
proof (induction server shards solr d num cur data db rule: page_loop.induct)
  case (1 server shards solr d num cur data db)
  show ?case
  proof (cases rule: page_loop_cases [of cur num server shards solr d data db])
    case stop
    with "1.prems" show ?thesis by simp
  next
    case (fetch e')
    with "1.prems" show ?thesis by (auto simp: page_request_dimension simp del: event_dimension.simps(1))
  next
    case (upsert items e')
    with "1.prems" show ?thesis by (auto simp: page_request_dimension simp del: event_dimension.simps(1))
  next
    case (commit items db')
    from "1.IH" [OF commit(1,2,3)] commit(4) "1.prems" show ?thesis
      by (auto simp: page_request_dimension simp del: event_dimension.simps(1))
  qed
qed

section \<open>A dimension, case by case\<close>

lemma index_dimension_cases [case_names unreachable nothing unread uncounted pages]:
  obtains
    "solr (stats_request server shards d) = None"
    "index_dimension server shards solr d db =
       \<lparr>trace = [Get (stats_request server shards d)], store = db,
        raised = Some ConnectionError\<rparr>"
  | res where "solr (stats_request server shards d) = Some res"
    "count_distinct d res = Inl TypeError"
    "index_dimension server shards solr d db =
       \<lparr>trace = [Get (stats_request server shards d), Say (NothingToIndex d)], store = db,
        raised = Some (SystemExit 0)\<rparr>"
  | res e where "solr (stats_request server shards d) = Some res"
    "count_distinct d res = Inl e" "e \<noteq> TypeError"
    "index_dimension server shards solr d db =
       \<lparr>trace = [Get (stats_request server shards d)], store = db, raised = Some e\<rparr>"
  | res total_facets e where "solr (stats_request server shards d) = Some res"
    "count_distinct d res = Inr total_facets"
    "results_num_pages total_facets = Inl e"
    "index_dimension server shards solr d db =
       \<lparr>trace = [Get (stats_request server shards d)], store = db, raised = Some e\<rparr>"
  | res total_facets num where "solr (stats_request server shards d) = Some res"
    "count_distinct d res = Inr total_facets"
    "results_num_pages total_facets = Inr num"
    "index_dimension server shards solr d db =
       \<lparr>trace = Get (stats_request server shards d)
          # trace (page_loop server shards solr d num 0 [] db),
        store = store (page_loop server shards solr d num 0 [] db),
        raised = raised (page_loop server shards solr d num 0 [] db)\<rparr>"
proof (cases "solr (stats_request server shards d)")
  case None
  then show ?thesis using that(1) by (simp add: index_dimension_def)
next
  case (Some res)
  show ?thesis
  proof (cases "count_distinct d res")
    case (Inl e)
    with Some show ?thesis using that(2) [of res] that(3) [of res e]
      by (cases "e = TypeError") (simp_all add: index_dimension_def)
  next
    case total: (Inr total_facets)
    show ?thesis
    proof (cases "results_num_pages total_facets")
      case (Inl e)
      with Some total show ?thesis using that(4) [of res total_facets e]
        by (simp add: index_dimension_def)
    next
      case (Inr num)
      with Some total show ?thesis using that(5) [of res total_facets num]
        by (simp add: index_dimension_def)
    qed
  qed
qed

lemma index_dimension_in_order:
  "dimension_in_order server shards d (trace (index_dimension server shards solr d db))"
proof (cases rule: index_dimension_cases [of solr server shards d db])
  case (pages res total_facets num)
  show ?thesis
  proof (cases rule: page_loop_cases [of 0 num server shards solr d "[]" db])
    case stop
    with pages show ?thesis by (simp add: dimension_in_order_def)
  next
    case (fetch e)
    with pages page_loop_in_order [of server shards d num 0 solr "[]" db] show ?thesis
      by (simp add: dimension_in_order_def)
  next
    case (upsert items e)
    with pages page_loop_in_order [of server shards d num 0 solr "[]" db] show ?thesis
      by (simp add: dimension_in_order_def)
  next
    case (commit items db')
    with pages page_loop_in_order [of server shards d num 0 solr "[]" db] show ?thesis
      by (simp add: dimension_in_order_def)
  qed
qed (simp_all add: dimension_in_order_def)

lemma index_dimension_commits:
  assumes "raised (index_dimension server shards solr d db) = None"
  shows "commits_of (trace (index_dimension server shards solr d db)) =
         length (requests_of (trace (index_dimension server shards solr d db))) - 1"
proof (cases rule: index_dimension_cases [of solr server shards d db])
  case (pages res total_facets num)
  with assms have r: "raised (page_loop server shards solr d num 0 [] db) = None" by simp
  show ?thesis
    using pages page_loop_commits [OF r] page_loop_requests [OF r] by simp
qed (use assms in simp_all)

lemma index_dimension_dimension:
  assumes "e \<in> set (trace (index_dimension server shards solr d db))"
  shows "event_dimension e = Some d \<or> event_dimension e = None"
proof (cases rule: index_dimension_cases [of solr server shards d db])
  case (pages res total_facets num)
  with assms page_loop_dimension [of e server shards solr d num 0 "[]" db] show ?thesis
    by (auto simp: stats_request_dimension simp del: event_dimension.simps(1))
qed (use assms in \<open>auto simp: stats_request_dimension simp del: event_dimension.simps(1)\<close>)

lemma index_dimension_own_batches:
  "own_batches solr (trace (index_dimension server shards solr d db))"
proof (cases rule: index_dimension_cases [of solr server shards d db])
  case (pages res total_facets num)
  show ?thesis
  proof (cases rule: page_loop_cases [of 0 num server shards solr d "[]" db])
    case stop
    with pages show ?thesis by simp
  next
    case (fetch e)
    with pages show ?thesis by simp
  next
    case (upsert items e)
    with pages show ?thesis by (simp add: page_request_limit)
  next
    case (commit items db')
    with pages page_loop_own_batches [of "[]" solr server shards d num 1 db'] show ?thesis
      by (simp add: page_request_limit)
  qed
qed simp_all

section \<open>The first steps of a run\<close>

lemma shards_trace: "fst (get_statistics_shards server solr) = [Get (cores_request server)]"
  by (simp add: get_statistics_shards_def split: option.splits sum.splits)

lemma index_dimension_first:
  "take 1 (trace (index_dimension server shards solr d db)) = [Get (stats_request server shards d)]"
  by (simp add: index_dimension_def split: option.splits sum.splits)

lemma main_trace:
  "trace (main server solr db) =
     [CreateTable, Commit, Get (cores_request server)] @
     (case snd (get_statistics_shards server solr) of
        Inl e \<Rightarrow> []
      | Inr sh \<Rightarrow>
          trace (index_views server sh solr (create_table db)) @
          (case raised (index_views server sh solr (create_table db)) of
             Some e \<Rightarrow> []
           | None \<Rightarrow>
               trace (index_downloads server sh solr
                 (store (index_views server sh solr (create_table db))))))"
  using shards_trace [of server solr]
  by (simp add: main_def split: sum.splits option.splits)



lemma no_views_after_downloads:
  assumes pre: "\<forall>e \<in> set xs. event_dimension e \<noteq> Some Downloads"
    and post: "\<forall>e \<in> set ys. event_dimension e \<noteq> Some Views"
  shows "views_before_downloads (xs @ ys)"
proof -
  have "dropWhile (\<lambda>e. event_dimension e \<noteq> Some Downloads) (xs @ ys) =
      dropWhile (\<lambda>e. event_dimension e \<noteq> Some Downloads) ys"
    using pre by (simp add: dropWhile_append)
  moreover have "set (dropWhile (\<lambda>e. event_dimension e \<noteq> Some Downloads) ys) \<subseteq> set ys"
    by (auto dest: set_dropWhileD)
  ultimately show ?thesis
    using post by (auto simp: views_before_downloads_def touches_def list_ex_iff)
qed

lemma main_views_before_downloads: "views_before_downloads (trace (main server solr db))"
proof (cases "snd (get_statistics_shards server solr)")
  case (Inl e)
  then have "trace (main server solr db) = [CreateTable, Commit, Get (cores_request server)] @ []"
    by (simp add: main_trace)
  moreover have "views_before_downloads ([CreateTable, Commit, Get (cores_request server)] @ [])"
    by (rule no_views_after_downloads) (simp_all add: cores_request_def)
  ultimately show ?thesis by simp
next
  case (Inr sh)
  let ?v = "index_views server sh solr (create_table db)"
  let ?td = "case raised ?v of Some e \<Rightarrow> []
     | None \<Rightarrow> trace (index_downloads server sh solr (store ?v))"
  have t: "trace (main server solr db) =
      ([CreateTable, Commit, Get (cores_request server)] @ trace ?v) @ ?td"
    using Inr by (simp add: main_trace)
  have v: "\<forall>e \<in> set ([CreateTable, Commit, Get (cores_request server)] @ trace ?v).
      event_dimension e \<noteq> Some Downloads"
  proof -
    have "\<forall>e \<in> set (trace ?v). event_dimension e \<noteq> Some Downloads"
      using index_dimension_dimension [of _ server sh solr Views "create_table db"]
      unfolding index_views_def by fastforce
    then show ?thesis by (simp add: cores_request_def)
  qed
  have d: "\<forall>e \<in> set ?td. event_dimension e \<noteq> Some Views"
  proof -
    have "\<forall>e \<in> set (trace (index_downloads server sh solr (store ?v))).
        event_dimension e \<noteq> Some Views"
      using index_dimension_dimension [of _ server sh solr Downloads "store ?v"]
      unfolding index_downloads_def by fastforce
    then show ?thesis by (simp split: option.splits)
  qed
  show ?thesis
    unfolding t using v d by (rule no_views_after_downloads)
qed

lemma own_batches_source:
  "own_batches solr es \<Longrightarrow> rows \<in> set (batches_of es) \<Longrightarrow>
   \<exists>d rq. map_of (params rq) ''facet.limit'' = Some (PInt results_per_page) \<and>
          page_items solr d rq = Inr rows"
  by (induction solr es rule: own_batches.induct) auto

lemmas example_defs = example_solr_def example_cores_def mixed_cores_def plain_cores_def
  newline_cores_def example_stats_def example_pages_def
  no_views_stats_def failing_cores_def keyless_stats_def two_hundred_stats_def huge_stats_def
  empty_pages_def ok_response_def
  stats_body_def
  facet_body_def

lemmas run_defs = main_def get_statistics_shards_def cores_request_def statistics_core_years_def
  res_json_def build_shards_def index_views_def index_downloads_def index_dimension_def
  stats_request_def page_request_def count_distinct_def page_items_def execute_values_def
  create_table_def upsert_def default_row_def results_per_page_def int_truediv_small
  pattern_match_def is_digit_def stored_def touches_def page_loop.simps pages_in_order.simps
  dimension_in_order_def views_before_downloads_def

section \<open>Nothing to index\<close>

text \<open>
  Claim C1, as amended. The shards are resolved and the distinct-count answer for views
  makes the subscript raise TypeError (nothing to index). Then \<^verbatim>\<open>exit(0)\<close> ends the
  whole process: the exit status is 0, the table is as it was after its creation, the run
  consists of the table creation, the core status request, the distinct-count request
  for views and the message, and no step of the downloads dimension is taken.
\<close>

theorem views_nothing_to_index_ends_run:
  assumes "snd (get_statistics_shards server solr) = Inr shards"
    and "solr (stats_request server shards Views) = Some res"
    and "count_distinct Views res = Inl TypeError"
  shows "raised (main server solr db) = Some (SystemExit 0) \<and>
         exit_code (raised (main server solr db)) = 0 \<and>
         trace (main server solr db) =
           [CreateTable, Commit, Get (cores_request server),
            Get (stats_request server shards Views), Say (NothingToIndex Views)] \<and>
         \<not> touches Downloads (trace (main server solr db)) \<and>
         store (main server solr db) = create_table db"
proof -
  have v: "index_views server shards solr (create_table db) =
      \<lparr>trace = [Get (stats_request server shards Views), Say (NothingToIndex Views)],
       store = create_table db, raised = Some (SystemExit 0)\<rparr>"
    using assms(2,3) by (simp add: index_views_def index_dimension_def)
  have m: "main server solr db =
      \<lparr>trace = [CreateTable, Commit, Get (cores_request server),
          Get (stats_request server shards Views), Say (NothingToIndex Views)],
       store = create_table db, raised = Some (SystemExit 0)\<rparr>"
    using assms(1) v shards_trace [of server solr] by (simp add: main_def)
  show ?thesis
    by (simp add: m touches_def cores_request_def stats_request_def)
qed

text \<open>
  The theorem on the example server whose views count is \<^verbatim>\<open>null\<close>: the three
  hypotheses hold there, and so does the conclusion.
\<close>

theorem views_nothing_to_index_ends_run_witness:
  "snd (get_statistics_shards ''http://solr''
          (example_solr example_cores no_views_stats example_pages)) =
     Inr ''http://solr/statistics,http://solr/statistics-2018,http://solr/statistics-2017'' \<and>
   example_solr example_cores no_views_stats example_pages
     (stats_request ''http://solr''
        ''http://solr/statistics,http://solr/statistics-2018,http://solr/statistics-2017'' Views) =
     Some \<lparr>status_code = 200, body = Some (stats_body Views JNull)\<rparr> \<and>
   count_distinct Views \<lparr>status_code = 200, body = Some (stats_body Views JNull)\<rparr> =
     Inl TypeError \<and>
   raised (main ''http://solr'' (example_solr example_cores no_views_stats example_pages) None) =
     Some (SystemExit 0) \<and>
   store (main ''http://solr'' (example_solr example_cores no_views_stats example_pages) None) =
     create_table None"
proof -
  have a: "snd (get_statistics_shards ''http://solr''
          (example_solr example_cores no_views_stats example_pages)) =
     Inr ''http://solr/statistics,http://solr/statistics-2018,http://solr/statistics-2017''"
    by (simp add: run_defs example_defs)
  have b: "example_solr example_cores no_views_stats example_pages
     (stats_request ''http://solr''
        ''http://solr/statistics,http://solr/statistics-2018,http://solr/statistics-2017'' Views) =
     Some \<lparr>status_code = 200, body = Some (stats_body Views JNull)\<rparr>"
    by (simp add: stats_request_def example_solr_def no_views_stats_def ok_response_def)
  have c: "count_distinct Views \<lparr>status_code = 200, body = Some (stats_body Views JNull)\<rparr> =
     Inl TypeError"
    by (simp add: count_distinct_def res_json_def stats_body_def)
  show ?thesis
    using a b c views_nothing_to_index_ends_run [OF a b c, of None] by simp
qed

text \<open>
  Claim C1 as stated fails. On the example server the views count is \<^verbatim>\<open>null\<close> and
  the downloads dimension has one item: run alone, \<^verbatim>\<open>index_downloads\<close> returns normally
  and stores 2 downloads for \<open>A\<close>. The whole run ends with status 0 without one step of
  the downloads dimension, and \<open>A\<close> has no row.
\<close>

theorem views_nothing_to_index_counterexample:
  "count_distinct Views \<lparr>status_code = 200, body = Some (stats_body Views JNull)\<rparr> =
     Inl TypeError \<and>
   raised (index_downloads ''http://solr'' [] (example_solr example_cores no_views_stats example_pages)
     (create_table None)) = None \<and>
   stored (index_downloads ''http://solr'' []
     (example_solr example_cores no_views_stats example_pages) (create_table None)) ''A'' =
     Some \<lparr>views = 0, downloads = 2\<rparr> \<and>
   exit_code (raised (main ''http://solr''
     (example_solr example_cores no_views_stats example_pages) None)) = 0 \<and>
   \<not> touches Downloads (trace (main ''http://solr''
     (example_solr example_cores no_views_stats example_pages) None)) \<and>
   stored (main ''http://solr'' (example_solr example_cores no_views_stats example_pages) None)
     ''A'' = None"
  by (simp add: run_defs example_defs)

text \<open>
  Claim C10. A dimension ends with \<^verbatim>\<open>exit(0)\<close> exactly when Solr answered the
  distinct-count request and subscripting the answer raised TypeError. When the answer
  is a dict without the key \<^verbatim>\<open>stats\<close>, the subscript raises KeyError, which nothing
  catches: the function raises KeyError, the process ends with status 1, no page is
  requested and the table is untouched.
\<close>

theorem nothing_to_index_only_on_type_error:
  "(raised (index_dimension server shards solr d db) = Some (SystemExit 0) \<longleftrightarrow>
      (\<exists>res. solr (stats_request server shards d) = Some res \<and>
             count_distinct d res = Inl TypeError)) \<and>
   (\<forall>res kvs. solr (stats_request server shards d) = Some res \<and>
        body res = Some (JObj kvs) \<and> map_of kvs ''stats'' = None \<longrightarrow>
        count_distinct d res = Inl KeyError \<and>
        raised (index_dimension server shards solr d db) = Some KeyError \<and>
        exit_code (raised (index_dimension server shards solr d db)) = 1 \<and>
        trace (index_dimension server shards solr d db) = [Get (stats_request server shards d)] \<and>
        store (index_dimension server shards solr d db) = db)"
proof (intro conjI allI impI)
  show "raised (index_dimension server shards solr d db) = Some (SystemExit 0) \<longleftrightarrow>
      (\<exists>res. solr (stats_request server shards d) = Some res \<and>
             count_distinct d res = Inl TypeError)"
    using page_loop_no_exit [of server shards solr d _ 0 "[]" db 0]
    by (auto simp: index_dimension_def split: option.splits sum.splits if_splits
        dest: count_distinct_error results_num_pages_error)
next
  fix res kvs
  assume a: "solr (stats_request server shards d) = Some res \<and>
        body res = Some (JObj kvs) \<and> map_of kvs ''stats'' = None"
  then have c: "count_distinct d res = Inl KeyError"
    by (simp add: count_distinct_def res_json_def)
  then show "count_distinct d res = Inl KeyError" .
  from a c show "raised (index_dimension server shards solr d db) = Some KeyError"
    by (simp add: index_dimension_def)
  from a c show "exit_code (raised (index_dimension server shards solr d db)) = 1"
    by (simp add: index_dimension_def)
  from a c show "trace (index_dimension server shards solr d db) =
      [Get (stats_request server shards d)]"
    by (simp add: index_dimension_def)
  from a c show "store (index_dimension server shards solr d db) = db"
    by (simp add: index_dimension_def)
qed

text \<open>
  The theorem on two servers: a views count of \<^verbatim>\<open>null\<close> gives TypeError and
  \<^verbatim>\<open>exit(0)\<close>; an answer \<^verbatim>\<open>{}\<close> gives an uncaught KeyError.
\<close>

theorem nothing_to_index_only_on_type_error_witness:
  "raised (index_dimension ''http://solr'' []
      (example_solr example_cores no_views_stats example_pages) Views (create_table None)) =
     Some (SystemExit 0) \<and>
   example_solr example_cores no_views_stats example_pages (stats_request ''http://solr'' [] Views) =
     Some \<lparr>status_code = 200, body = Some (stats_body Views JNull)\<rparr> \<and>
   count_distinct Views \<lparr>status_code = 200, body = Some (stats_body Views JNull)\<rparr> =
     Inl TypeError \<and>
   example_solr example_cores keyless_stats example_pages (stats_request ''http://solr'' [] Views) =
     Some \<lparr>status_code = 200, body = Some (JObj [])\<rparr> \<and>
   map_of ([] :: (string \<times> json) list) ''stats'' = None \<and>
   raised (index_dimension ''http://solr'' []
      (example_solr example_cores keyless_stats example_pages) Views (create_table None)) =
     Some KeyError \<and>
   exit_code (raised (index_dimension ''http://solr'' []
      (example_solr example_cores keyless_stats example_pages) Views (create_table None))) = 1"
  using nothing_to_index_only_on_type_error [of "''http://solr''" "[]"
      "example_solr example_cores no_views_stats example_pages" Views "create_table None"]
    nothing_to_index_only_on_type_error [of "''http://solr''" "[]"
      "example_solr example_cores keyless_stats example_pages" Views "create_table None"]
  by (simp add: run_defs example_defs)

section \<open>A failing core status request\<close>




section \<open>Pagination\<close>

lemma page_loop_completes:
  "(\<And>k. page_items solr d (page_request server shards d k) = Inr []) \<Longrightarrow> data = [] \<Longrightarrow>
   raised (page_loop server shards solr d num cur data db) = None"
proof (induction server shards solr d num cur data db rule: page_loop.induct)
  case (1 server shards solr d num cur data db)
  have e: "page_items solr d (page_request server shards d cur) = Inr []"
    by (rule "1.prems"(1))
  have x: "execute_values d (data @ []) db = Inr db"
    using "1.prems"(2) by (simp add: execute_values_def)
  show ?case
  proof (cases rule: page_loop_cases [of cur num server shards solr d data db])
    case stop
    then show ?thesis by simp
  next
    case (fetch e')
    with e show ?thesis by simp
  next
    case (upsert items e')
    with e x show ?thesis by simp
  next
    case (commit items db')
    from "1.IH" [OF commit(1,2,3) "1.prems"(1) refl] commit(4) show ?thesis
      by simp
  qed
qed

lemma page_loop_request_count:
  assumes "raised (page_loop server shards solr d num 0 data db) = None" and "0 \<le> num"
  shows "length (requests_of (trace (page_loop server shards solr d num 0 data db))) =
         nat (num + 1)"
  using page_loop_requests [OF assms(1)] assms(2) by simp

text \<open>
  Claim C3, as amended. The distinct-count answer of a dimension holds an integer \<open>N\<close>
  with \<open>0 \<le> N < 100 * 2 ^ 47\<close> (that is, below 14073748835532800) and the dimension runs
  to its end. Then, with the page size 100, the requests sent are the distinct-count
  request followed by the page requests of the indices 0, 1, ..., \<open>N div 100\<close> in this
  order, which are \<open>N div 100 + 1\<close> pages (also when 100 divides \<open>N\<close>), and the request
  of page \<open>k\<close> carries \<^verbatim>\<open>facet.offset\<close> \<open>k * 100\<close> and \<^verbatim>\<open>facet.limit\<close> 100.
\<close>

theorem pages_fetched:
  assumes "solr (stats_request server shards d) = Some res"
    and "count_distinct d res = Inr (JInt N)"
    and "0 \<le> N"
    and "N < 100 * 2 ^ 47"
    and "raised (index_dimension server shards solr d db) = None"
  shows "results_per_page = 100 \<and>
         requests_of (trace (index_dimension server shards solr d db)) =
           stats_request server shards d # map (page_request server shards d) [0..N div 100] \<and>
         length (map (page_request server shards d) [0..N div 100]) = nat (N div 100 + 1) \<and>
         (\<forall>k. map_of (params (page_request server shards d k)) ''facet.offset'' =
                Some (PInt (k * 100)) \<and>
              map_of (params (page_request server shards d k)) ''facet.limit'' =
                Some (PInt 100))"
proof -
  have n: "results_num_pages (JInt N) = Inr (N div 100)"
    using assms(3,4) by (rule results_num_pages_small)
  have i: "index_dimension server shards solr d db =
       \<lparr>trace = Get (stats_request server shards d)
          # trace (page_loop server shards solr d (N div 100) 0 [] db),
        store = store (page_loop server shards solr d (N div 100) 0 [] db),
        raised = raised (page_loop server shards solr d (N div 100) 0 [] db)\<rparr>"
    using assms(1,2) n by (simp add: index_dimension_def del: results_num_pages.simps)
  with assms(5) have "raised (page_loop server shards solr d (N div 100) 0 [] db) = None"
    by simp
  then have "requests_of (trace (page_loop server shards solr d (N div 100) 0 [] db)) =
      map (page_request server shards d) [0..N div 100]"
    by (rule page_loop_requests)
  with i have r: "requests_of (trace (index_dimension server shards solr d db)) =
      stats_request server shards d # map (page_request server shards d) [0..N div 100]"
    by simp
  have l: "length (map (page_request server shards d) [0..N div 100]) = nat (N div 100 + 1)"
    by simp
  show ?thesis
    using r l by (simp add: results_per_page_def page_request_def)
qed

text \<open>
  The theorem at \<open>N = 200\<close>, a multiple of the page size: three pages are requested, at
  the offsets 0, 100 and 200.
\<close>

theorem pages_fetched_witness:
  "example_solr example_cores two_hundred_stats example_pages (stats_request ''http://solr'' [] Views) =
     Some \<lparr>status_code = 200,
       body = Some (stats_body Views (JObj [(''countDistinct'', JInt 200)]))\<rparr> \<and>
   count_distinct Views \<lparr>status_code = 200,
       body = Some (stats_body Views (JObj [(''countDistinct'', JInt 200)]))\<rparr> = Inr (JInt 200) \<and>
   (0::int) \<le> 200 \<and>
   (200::int) < 100 * 2 ^ 47 \<and>
   raised (index_dimension ''http://solr'' []
     (example_solr example_cores two_hundred_stats example_pages) Views (create_table None)) = None \<and>
   requests_of (trace (index_dimension ''http://solr'' []
     (example_solr example_cores two_hundred_stats example_pages) Views (create_table None))) =
     [stats_request ''http://solr'' [] Views,
      page_request ''http://solr'' [] Views 0,
      page_request ''http://solr'' [] Views 1,
      page_request ''http://solr'' [] Views 2] \<and>
   map_of (params (page_request ''http://solr'' [] Views 2)) ''facet.offset'' = Some (PInt 200)"
proof -
  have a: "example_solr example_cores two_hundred_stats example_pages
      (stats_request ''http://solr'' [] Views) =
     Some \<lparr>status_code = 200,
       body = Some (stats_body Views (JObj [(''countDistinct'', JInt 200)]))\<rparr>"
    by (simp add: stats_request_def example_solr_def two_hundred_stats_def ok_response_def)
  have b: "count_distinct Views \<lparr>status_code = 200,
       body = Some (stats_body Views (JObj [(''countDistinct'', JInt 200)]))\<rparr> = Inr (JInt 200)"
    by (simp add: count_distinct_def res_json_def stats_body_def)
  have c: "(0::int) \<le> 200" by simp
  have c': "(200::int) < 100 * 2 ^ 47" by simp
  have d: "raised (index_dimension ''http://solr'' []
     (example_solr example_cores two_hundred_stats example_pages) Views (create_table None)) = None"
    by (simp add: run_defs example_defs)
  have u: "[0..(2::int)] = [0, 1, 2]"
    by (simp add: upto_rec1)
  show ?thesis
    using a b c c' d u pages_fetched [OF a b c c' d] by simp
qed

text \<open>
  Claim C3 as stated fails for a large count. At \<open>N = 14073748835532899\<close> the double
  nearest to \<open>N / 100\<close> is 140737488355329, one more than \<open>N div 100\<close>. On a server that
  reports this count and serves empty pages the dimension runs to its end and sends
  140737488355331 requests: the distinct-count request and 140737488355330 pages, where
  \<open>N div 100 + 1\<close> is 140737488355329.
\<close>

theorem pages_fetched_counterexample:
  "count_distinct Views
     \<lparr>status_code = 200,
      body = Some (stats_body Views (JObj [(''countDistinct'', JInt 14073748835532899)]))\<rparr> =
     Inr (JInt 14073748835532899) \<and>
   results_num_pages (JInt 14073748835532899) = Inr 140737488355329 \<and>
   raised (index_dimension ''http://solr'' []
     (example_solr example_cores huge_stats empty_pages) Views (create_table None)) = None \<and>
   length (requests_of (trace (index_dimension ''http://solr'' []
     (example_solr example_cores huge_stats empty_pages) Views (create_table None)))) =
     140737488355331 \<and>
   (14073748835532899::int) div 100 + 1 = 140737488355329"
proof -
  let ?solr = "example_solr example_cores huge_stats empty_pages"
  let ?loop = "page_loop ''http://solr'' [] ?solr Views 140737488355329 0 [] (create_table None)"
  have c: "count_distinct Views
     \<lparr>status_code = 200,
      body = Some (stats_body Views (JObj [(''countDistinct'', JInt 14073748835532899)]))\<rparr> =
     Inr (JInt 14073748835532899)"
    by (simp add: count_distinct_def res_json_def stats_body_def)
  have n: "results_num_pages (JInt 14073748835532899) = Inr 140737488355329"
    by (simp add: results_per_page_def int_truediv_def truncated_quotient_def significand_def
        round_half_even_def exponent_def scaled_def bit_length.simps)
  have s: "?solr (stats_request ''http://solr'' [] Views) =
     Some \<lparr>status_code = 200,
      body = Some (stats_body Views (JObj [(''countDistinct'', JInt 14073748835532899)]))\<rparr>"
    by (simp add: stats_request_def example_solr_def huge_stats_def ok_response_def)
  have i: "index_dimension ''http://solr'' [] ?solr Views (create_table None) =
      \<lparr>trace = Get (stats_request ''http://solr'' [] Views) # trace ?loop,
       store = store ?loop, raised = raised ?loop\<rparr>"
    using s c n by (simp add: index_dimension_def del: results_num_pages.simps)
  have p: "page_items ?solr Views (page_request ''http://solr'' [] Views k) = Inr []" for k
    by (simp add: page_items_def page_request_def example_solr_def empty_pages_def
        ok_response_def facet_body_def res_json_def)
  have r: "raised ?loop = None"
    using p by (rule page_loop_completes) simp
  have "length (requests_of (trace ?loop)) = nat (140737488355329 + 1)"
    using r by (rule page_loop_request_count) simp
  then have l: "length (requests_of (trace ?loop)) = 140737488355330"
    by simp
  show ?thesis
    using c n l r by (simp add: i del: results_num_pages.simps)
qed

section \<open>The order of the steps\<close>

text \<open>
  Claim C8. In every run of a dimension the steps are the distinct-count request and then
  the pages in ascending index order from 0, hence in ascending offset order: each page is
  announced, requested, upserted and committed before the next page is requested, the
  commit standing directly after the upsert of its page. A dimension that runs to its end
  has committed once per page it requested (the requests are the pages and the one
  distinct-count request). Every run of the module is the table creation with its commit,
  the core status request, all steps of \<^verbatim>\<open>index_views\<close>, and only when
  \<^verbatim>\<open>index_views\<close> has returned, all steps of \<^verbatim>\<open>index_downloads\<close>; no step of
  the views dimension follows a step of the downloads dimension.
\<close>

theorem run_order:
  "dimension_in_order server shards d (trace (index_dimension server shards solr d db)) \<and>
   (raised (index_dimension server shards solr d db) = None \<longrightarrow>
      commits_of (trace (index_dimension server shards solr d db)) =
        length (requests_of (trace (index_dimension server shards solr d db))) - 1) \<and>
   trace (main server solr db) =
     [CreateTable, Commit, Get (cores_request server)] @
     (case snd (get_statistics_shards server solr) of
        Inl e \<Rightarrow> []
      | Inr sh \<Rightarrow>
          trace (index_views server sh solr (create_table db)) @
          (case raised (index_views server sh solr (create_table db)) of
             Some e \<Rightarrow> []
           | None \<Rightarrow>
               trace (index_downloads server sh solr
                 (store (index_views server sh solr (create_table db)))))) \<and>
   views_before_downloads (trace (main server solr db))"
  using index_dimension_in_order [of server shards d solr db]
    index_dimension_commits [of server shards solr d db]
    main_trace [of server solr db] main_views_before_downloads [of server solr db]
  by blast

text \<open>
  The theorem on the example server: the views dimension has one page, committed once,
  and the whole run keeps views before downloads.
\<close>

theorem run_order_witness:
  "raised (index_dimension ''http://solr'' []
     (example_solr example_cores example_stats example_pages) Views (create_table None)) = None \<and>
   trace (index_dimension ''http://solr'' []
     (example_solr example_cores example_stats example_pages) Views (create_table None)) =
     [Get (stats_request ''http://solr'' [] Views),
      Say (Progress Views 1 1),
      Get (page_request ''http://solr'' [] Views 0),
      Execute Views [(''A'', JInt 5), (''B'', JInt 3)],
      Commit] \<and>
   dimension_in_order ''http://solr'' [] Views
     (trace (index_dimension ''http://solr'' []
       (example_solr example_cores example_stats example_pages) Views (create_table None))) \<and>
   commits_of (trace (index_dimension ''http://solr'' []
     (example_solr example_cores example_stats example_pages) Views (create_table None))) = 1 \<and>
   views_before_downloads (trace (main ''http://solr''
     (example_solr example_cores example_stats example_pages) (create_table None)))"
proof -
  have t: "index_dimension ''http://solr'' []
     (example_solr example_cores example_stats example_pages) Views (create_table None) =
     \<lparr>trace = [Get (stats_request ''http://solr'' [] Views),
        Say (Progress Views 1 1),
        Get (page_request ''http://solr'' [] Views 0),
        Execute Views [(''A'', JInt 5), (''B'', JInt 3)],
        Commit],
      store = Some (Map.empty(''A'' \<mapsto> \<lparr>views = 5, downloads = 0\<rparr>,
        ''B'' \<mapsto> \<lparr>views = 3, downloads = 0\<rparr>)),
      raised = None\<rparr>"
    by (simp add: run_defs example_defs)
  note r = run_order [of "''http://solr''" "[]" Views
      "example_solr example_cores example_stats example_pages" "create_table None"]
  show ?thesis
    using r [THEN conjunct1] r [THEN conjunct2, THEN conjunct2, THEN conjunct2]
    by (simp add: t)
qed

section \<open>The batches\<close>

text \<open>
  Claim C9. In every run of a dimension each call of \<^verbatim>\<open>execute_values\<close> directly
  follows a page request made with the page size as \<^verbatim>\<open>facet.limit\<close>, and its batch is
  exactly the list of items of that request's answer: the list is empty again when the
  next page is read, so no pair of an earlier page is submitted a second time. When Solr
  honours the limit, a batch holds at most 100 pairs.
\<close>

theorem batches_hold_their_own_page:
  "own_batches solr (trace (index_dimension server shards solr d db)) \<and>
   ((\<forall>d' rq rows. map_of (params rq) ''facet.limit'' = Some (PInt results_per_page) \<and>
        page_items solr d' rq = Inr rows \<longrightarrow> int (length rows) \<le> results_per_page) \<longrightarrow>
    (\<forall>rows \<in> set (batches_of (trace (index_dimension server shards solr d db))).
        int (length rows) \<le> results_per_page))"
  using index_dimension_own_batches [of solr server shards d db] own_batches_source [of solr]
  by blast

text \<open>
  The theorem on the example server, which answers every request with at most two items:
  the one batch of the views dimension is its page.
\<close>

theorem batches_hold_their_own_page_witness:
  "own_batches (example_solr example_cores example_stats example_pages)
     (trace (index_dimension ''http://solr'' []
       (example_solr example_cores example_stats example_pages) Views (create_table None))) \<and>
   batches_of (trace (index_dimension ''http://solr'' []
     (example_solr example_cores example_stats example_pages) Views (create_table None))) =
     [[(''A'', JInt 5), (''B'', JInt 3)]] \<and>
   list_all (\<lambda>rows. int (length rows) \<le> results_per_page)
     (batches_of (trace (index_dimension ''http://solr'' []
       (example_solr example_cores example_stats example_pages) Views (create_table None))))"
proof -
  have h: "\<forall>d' rq rows. map_of (params rq) ''facet.limit'' = Some (PInt results_per_page) \<and>
        page_items (example_solr example_cores example_stats example_pages) d' rq = Inr rows \<longrightarrow>
        int (length rows) \<le> results_per_page"
    by (auto simp: page_items_def res_json_def example_defs results_per_page_def
        split: if_splits option.splits pval.splits sum.splits)
  have b: "batches_of (trace (index_dimension ''http://solr'' []
     (example_solr example_cores example_stats example_pages) Views (create_table None))) =
     [[(''A'', JInt 5), (''B'', JInt 3)]]"
    by (simp add: run_defs example_defs)
  show ?thesis
    using h b batches_hold_their_own_page [of
        "example_solr example_cores example_stats example_pages" "''http://solr''" "[]" Views
        "create_table None"]
    by (simp add: list_all_iff)
qed

section \<open>The shard string\<close>

text \<open>
  What the pattern accepts, spelled out: the prefix, four digits, and nothing more, or
  one newline more (the reading Python gives to \<^verbatim>\<open>$\<close>).
\<close>

lemma length_four: "length xs = 4 \<Longrightarrow> \<exists>a b c d. xs = [a, b, c, d]"
  by (cases xs; simp; rename_tac x1 ys; case_tac ys; simp; rename_tac x2 zs; case_tac zs; simp;
      rename_tac x3 ws; case_tac ws; simp)

lemma pattern_match_iff:
  "pattern_match core \<longleftrightarrow>
     (\<exists>a b c d. is_digit a \<and> is_digit b \<and> is_digit c \<and> is_digit d \<and>
        (core = ''statistics-'' @ [a, b, c, d] \<or>
         core = ''statistics-'' @ [a, b, c, d] @ [CHR 0x0A]))"
proof
  assume m: "pattern_match core"
  then have p: "take 11 core = ''statistics-''"
    and l: "length (take 4 (drop 11 core)) = 4"
    and g: "list_all is_digit (take 4 (drop 11 core))"
    and e: "drop 15 core = [] \<or> drop 15 core = [CHR 0x0A]"
    by (simp_all add: pattern_match_def)
  from length_four [OF l] obtain a b c d where y: "take 4 (drop 11 core) = [a, b, c, d]"
    by blast
  have "take 4 (drop 11 core) @ drop 4 (drop 11 core) = drop 11 core"
    by (rule append_take_drop_id)
  moreover have "take 11 core @ drop 11 core = core"
    by (rule append_take_drop_id)
  moreover have "drop 4 (drop 11 core) = drop 15 core"
    by simp
  ultimately have "core = take 11 core @ take 4 (drop 11 core) @ drop 15 core"
    by metis
  then have "core = ''statistics-'' @ [a, b, c, d] @ drop 15 core"
    using p y by (simp only:)
  then have c: "core = ''statistics-'' @ [a, b, c, d] \<or>
      core = ''statistics-'' @ [a, b, c, d] @ [CHR 0x0A]"
    using e by auto
  have "is_digit a \<and> is_digit b \<and> is_digit c \<and> is_digit d"
    using g y by simp
  with c show "\<exists>a b c d. is_digit a \<and> is_digit b \<and> is_digit c \<and> is_digit d \<and>
        (core = ''statistics-'' @ [a, b, c, d] \<or>
         core = ''statistics-'' @ [a, b, c, d] @ [CHR 0x0A])"
    by blast
next
  assume "\<exists>a b c d. is_digit a \<and> is_digit b \<and> is_digit c \<and> is_digit d \<and>
        (core = ''statistics-'' @ [a, b, c, d] \<or>
         core = ''statistics-'' @ [a, b, c, d] @ [CHR 0x0A])"
  then show "pattern_match core"
    by (auto simp: pattern_match_def)
qed

lemma fold_shards:
  "fold (\<lambda>core shards. shards @ f core) years base = base @ concat (map f years)"
  by (induction years arbitrary: base) simp_all

lemma comma_join_cons:
  "comma_join (x # map f ys) = x @ concat (map (\<lambda>y. '','' @ f y) ys)"
  by (induction ys arbitrary: x) simp_all

lemma build_shards_join:
  "build_shards server years =
     (if years = [] then [] else comma_join (shard_targets server years))"
  by (simp add: build_shards_def shard_targets_def fold_shards comma_join_cons)

lemma collect_cores_names:
  "collect_cores (map (\<lambda>kv. JStr (fst kv)) cores) acc =
     Inr (acc @ filter pattern_match (map fst cores))"
  by (induction cores arbitrary: acc) simp_all

lemma page_loop_shards:
  "rq \<in> set (requests_of (trace (page_loop server shards solr d num cur data db))) \<Longrightarrow>
   map_of (params rq) ''shards'' = Some (PStr shards)"
proof (induction server shards solr d num cur data db rule: page_loop.induct)
  case (1 server shards solr d num cur data db)
  show ?case
  proof (cases rule: page_loop_cases [of cur num server shards solr d data db])
    case stop
    with "1.prems" show ?thesis by simp
  next
    case (fetch e)
    with "1.prems" show ?thesis by (auto simp: page_request_def)
  next
    case (upsert items e)
    with "1.prems" show ?thesis by (auto simp: page_request_def)
  next
    case (commit items db')
    from "1.IH" [OF commit(1,2,3)] commit(4) "1.prems" show ?thesis
      by (auto simp: page_request_def)
  qed
qed

lemma index_dimension_shards:
  assumes "rq \<in> set (requests_of (trace (index_dimension server shards solr d db)))"
  shows "map_of (params rq) ''shards'' = Some (PStr shards)"
proof (cases rule: index_dimension_cases [of solr server shards d db])
  case (pages res total_facets num)
  with assms page_loop_shards [of rq server shards solr d num 0 "[]" db] show ?thesis
    by (auto simp: stats_request_def)
qed (use assms in \<open>auto simp: stats_request_def\<close>)

lemma year_core_iff:
  "year_core core \<longleftrightarrow>
     (\<exists>a b c d. is_digit a \<and> is_digit b \<and> is_digit c \<and> is_digit d \<and>
        core = ''statistics-'' @ [a, b, c, d])"
proof
  assume y: "year_core core"
  then have p: "take 11 core = ''statistics-''" and g: "list_all is_digit (drop 11 core)"
    and "length (drop 11 core) = 4"
    by (simp_all add: year_core_def)
  from length_four [OF this(3)] obtain a b c d where d: "drop 11 core = [a, b, c, d]"
    by blast
  have "take 11 core @ drop 11 core = core"
    by (rule append_take_drop_id)
  then have "core = ''statistics-'' @ [a, b, c, d]"
    using p d by (simp only:)
  moreover have "is_digit a \<and> is_digit b \<and> is_digit c \<and> is_digit d"
    using g d by simp
  ultimately show "\<exists>a b c d. is_digit a \<and> is_digit b \<and> is_digit c \<and> is_digit d \<and>
        core = ''statistics-'' @ [a, b, c, d]"
    by blast
next
  assume "\<exists>a b c d. is_digit a \<and> is_digit b \<and> is_digit c \<and> is_digit d \<and>
        core = ''statistics-'' @ [a, b, c, d]"
  then show "year_core core"
    by (auto simp: year_core_def)
qed

lemma pattern_match_accepts:
  "pattern_match core \<longleftrightarrow>
     year_core core \<or> (\<exists>y. year_core y \<and> core = y @ [CHR 0x0A])"
proof
  assume "pattern_match core"
  then obtain a b c d where g: "is_digit a \<and> is_digit b \<and> is_digit c \<and> is_digit d"
    and c: "core = ''statistics-'' @ [a, b, c, d] \<or>
      core = ''statistics-'' @ [a, b, c, d] @ [CHR 0x0A]"
    unfolding pattern_match_iff by blast
  from g have y: "year_core (''statistics-'' @ [a, b, c, d])"
    unfolding year_core_iff by blast
  from c show "year_core core \<or> (\<exists>y. year_core y \<and> core = y @ [CHR 0x0A])"
  proof
    assume "core = ''statistics-'' @ [a, b, c, d]"
    with y show ?thesis by simp
  next
    assume "core = ''statistics-'' @ [a, b, c, d] @ [CHR 0x0A]"
    then have "core = (''statistics-'' @ [a, b, c, d]) @ [CHR 0x0A]" by simp
    with y show ?thesis by blast
  qed
next
  assume "year_core core \<or> (\<exists>y. year_core y \<and> core = y @ [CHR 0x0A])"
  then show "pattern_match core"
    unfolding year_core_iff pattern_match_iff by auto
qed

lemma pattern_match_without_newline:
  "CHR 0x0A \<notin> set core \<Longrightarrow> pattern_match core = year_core core"
  unfolding pattern_match_accepts by auto

text \<open>
  Claim C6, as amended. Solr answers the core status request with status 200 and a JSON
  body whose \<^verbatim>\<open>status\<close> entry is a dict of cores. The cores kept are those whose name
  is \<^verbatim>\<open>statistics-\<close> followed by exactly four digits, and also those whose name is
  such a name followed by one newline (Python's \<^verbatim>\<open>$\<close> lets the pattern match
  there); every other core is left out. When at least one core is kept, the shard string
  names the base core \<^verbatim>\<open>statistics\<close> first and then one target for each kept core, in
  the order of the answer. When no core name holds a newline, the kept cores are exactly
  the cores named \<^verbatim>\<open>statistics-YYYY\<close>. When no core is kept, the shard string is
  empty; this is an ordinary return value, the run goes on to the distinct-count request
  for views, and every request a dimension sends with it carries the empty
  \<^verbatim>\<open>shards\<close> parameter as it is.
\<close>

theorem shards_resolved:
  assumes "solr (cores_request server) = Some res"
    and "status_code res = 200"
    and "body res = Some data"
    and "py_getitem data ''status'' = Inr (JObj cores)"
  shows "snd (get_statistics_shards server solr) =
           Inr (if filter (\<lambda>core. year_core core \<or> (\<exists>y. year_core y \<and> core = y @ [CHR 0x0A]))
                     (map fst cores) = [] then []
                else comma_join (shard_targets server
                  (filter (\<lambda>core. year_core core \<or> (\<exists>y. year_core y \<and> core = y @ [CHR 0x0A]))
                     (map fst cores)))) \<and>
         ((\<forall>core \<in> set (map fst cores). CHR 0x0A \<notin> set core) \<longrightarrow>
            snd (get_statistics_shards server solr) =
              Inr (if filter year_core (map fst cores) = [] then []
                   else comma_join (shard_targets server (filter year_core (map fst cores))))) \<and>
         (filter (\<lambda>core. year_core core \<or> (\<exists>y. year_core y \<and> core = y @ [CHR 0x0A]))
              (map fst cores) = [] \<longrightarrow>
            snd (get_statistics_shards server solr) = Inr [] \<and>
            take 4 (trace (main server solr db)) =
              [CreateTable, Commit, Get (cores_request server),
               Get (stats_request server [] Views)]) \<and>
         (\<forall>rq \<in> set (requests_of (trace (index_dimension server [] solr d db'))).
            map_of (params rq) ''shards'' = Some (PStr []))"
proof -
  have pm: "pattern_match =
      (\<lambda>core. year_core core \<or> (\<exists>y. year_core y \<and> core = y @ [CHR 0x0A]))"
    by (rule ext) (rule pattern_match_accepts)
  have y: "statistics_core_years res = Inr (filter pattern_match (map fst cores))"
    using assms(2,3,4) by (simp add: statistics_core_years_def res_json_def collect_cores_names)
  have g: "snd (get_statistics_shards server solr) =
      Inr (build_shards server (filter pattern_match (map fst cores)))"
    using assms(1) y by (simp add: get_statistics_shards_def)
  have first': "snd (get_statistics_shards server solr) =
           Inr (if filter pattern_match (map fst cores) = [] then []
                else comma_join (shard_targets server (filter pattern_match (map fst cores))))"
    using g by (simp add: build_shards_join)
  have first: "snd (get_statistics_shards server solr) =
           Inr (if filter (\<lambda>core. year_core core \<or> (\<exists>y. year_core y \<and> core = y @ [CHR 0x0A]))
                     (map fst cores) = [] then []
                else comma_join (shard_targets server
                  (filter (\<lambda>core. year_core core \<or> (\<exists>y. year_core y \<and> core = y @ [CHR 0x0A]))
                     (map fst cores))))"
    using first' unfolding pm .
  have plain: "snd (get_statistics_shards server solr) =
              Inr (if filter year_core (map fst cores) = [] then []
                   else comma_join (shard_targets server (filter year_core (map fst cores))))"
    if n: "\<forall>core \<in> set (map fst cores). CHR 0x0A \<notin> set core"
  proof -
    have "filter pattern_match (map fst cores) = filter year_core (map fst cores)"
      by (rule filter_cong [OF refl]) (use n in \<open>auto simp: pattern_match_without_newline\<close>)
    with first' show ?thesis by simp
  qed
  have second: "take 4 (trace (main server solr db)) =
              [CreateTable, Commit, Get (cores_request server),
               Get (stats_request server [] Views)]"
    if e: "filter (\<lambda>core. year_core core \<or> (\<exists>y. year_core y \<and> core = y @ [CHR 0x0A]))
              (map fst cores) = []"
  proof -
    have s: "snd (get_statistics_shards server solr) = Inr []"
      using first e by simp
    have "take 1 (trace (index_views server [] solr (create_table db))) =
        [Get (stats_request server [] Views)]"
      unfolding index_views_def by (rule index_dimension_first)
    then obtain rest where "trace (index_views server [] solr (create_table db)) =
        Get (stats_request server [] Views) # rest"
      by (cases "trace (index_views server [] solr (create_table db))") auto
    then show ?thesis
      using s by (simp add: main_trace)
  qed
  have third: "\<forall>rq \<in> set (requests_of (trace (index_dimension server [] solr d db'))).
            map_of (params rq) ''shards'' = Some (PStr [])"
    using index_dimension_shards [of _ server "[]" solr d db'] by blast
  show ?thesis
    using first plain second third by (intro conjI impI) simp_all
qed

text \<open>
  The theorem on two answers without newlines: one with two year cores among names that
  nearly match, one with no year core.
\<close>

theorem shards_resolved_witness:
  "snd (get_statistics_shards ''http://solr'' (example_solr mixed_cores example_stats example_pages)) =
     Inr ''http://solr/statistics,http://solr/statistics-2018,http://solr/statistics-2010'' \<and>
   filter year_core
     [''statistics'', ''statistics-2018'', ''statistics-18'', ''statistics-20189'',
      ''statistics-201x'', ''xstatistics-2016'', ''statistics-2010'', ''search''] =
     [''statistics-2018'', ''statistics-2010''] \<and>
   snd (get_statistics_shards ''http://solr'' (example_solr plain_cores example_stats example_pages)) =
     Inr [] \<and>
   filter year_core [''statistics'', ''search''] = []"
proof -
  let ?mixed = "[(''statistics'', JObj []), (''statistics-2018'', JObj []),
             (''statistics-18'', JObj []), (''statistics-20189'', JObj []),
             (''statistics-201x'', JObj []), (''xstatistics-2016'', JObj []),
             (''statistics-2010'', JObj []), (''search'', JObj [])]"
  let ?plain = "[(''statistics'', JObj []), (''search'', JObj [])]"
  have a1: "example_solr mixed_cores example_stats example_pages (cores_request ''http://solr'') =
      Some \<lparr>status_code = 200, body = Some (JObj [(''status'', JObj ?mixed)])\<rparr>"
    by (simp add: example_solr_def mixed_cores_def ok_response_def cores_request_def)
  have a2: "status_code \<lparr>status_code = 200, body = Some (JObj [(''status'', JObj ?mixed)])\<rparr> = 200"
    by simp
  have a3: "body \<lparr>status_code = 200, body = Some (JObj [(''status'', JObj ?mixed)])\<rparr> =
      Some (JObj [(''status'', JObj ?mixed)])"
    by simp
  have a4: "py_getitem (JObj [(''status'', JObj ?mixed)]) ''status'' = Inr (JObj ?mixed)"
    by simp
  have b1: "example_solr plain_cores example_stats example_pages (cores_request ''http://solr'') =
      Some \<lparr>status_code = 200, body = Some (JObj [(''status'', JObj ?plain)])\<rparr>"
    by (simp add: example_solr_def plain_cores_def ok_response_def cores_request_def)
  have b2: "status_code \<lparr>status_code = 200, body = Some (JObj [(''status'', JObj ?plain)])\<rparr> = 200"
    by simp
  have b3: "body \<lparr>status_code = 200, body = Some (JObj [(''status'', JObj ?plain)])\<rparr> =
      Some (JObj [(''status'', JObj ?plain)])"
    by simp
  have b4: "py_getitem (JObj [(''status'', JObj ?plain)]) ''status'' = Inr (JObj ?plain)"
    by simp
  have n1: "\<forall>core \<in> set (map fst ?mixed). CHR 0x0A \<notin> set core"
    by simp
  have n2: "\<forall>core \<in> set (map fst ?plain). CHR 0x0A \<notin> set core"
    by simp
  have f1: "filter year_core (map fst ?mixed) = [''statistics-2018'', ''statistics-2010'']"
    by (simp add: year_core_def is_digit_def)
  have f2: "filter year_core (map fst ?plain) = []"
    by (simp add: year_core_def is_digit_def)
  note m = shards_resolved [where solr = "example_solr mixed_cores example_stats example_pages"
      and server = "''http://solr''" and cores = ?mixed and db = None and d = Views and db' = None,
      OF a1 a2 a3 a4]
  note p = shards_resolved [where solr = "example_solr plain_cores example_stats example_pages"
      and server = "''http://solr''" and cores = ?plain and db = None and d = Views and db' = None,
      OF b1 b2 b3 b4]
  have r1: "snd (get_statistics_shards ''http://solr''
      (example_solr mixed_cores example_stats example_pages)) =
     Inr ''http://solr/statistics,http://solr/statistics-2018,http://solr/statistics-2010''"
    using m [THEN conjunct2, THEN conjunct1, THEN mp, OF n1, unfolded f1]
    by (simp add: shard_targets_def)
  have r2: "snd (get_statistics_shards ''http://solr''
      (example_solr plain_cores example_stats example_pages)) = Inr []"
    using p [THEN conjunct2, THEN conjunct1, THEN mp, OF n2, unfolded f2] by simp
  show ?thesis
    using r1 r2 f1 f2 by (simp del: filter.simps)
qed

text \<open>
  Claim C6 as stated fails. The answer lists the cores \<^verbatim>\<open>statistics\<close> and
  \<^verbatim>\<open>statistics-2018\<close> followed by a newline. The second name is not of the form
  \<^verbatim>\<open>statistics-YYYY\<close>, yet the pattern matches it and its target enters the shard
  string, newline included.
\<close>

theorem shards_resolved_counterexample:
  "\<not> year_core (''statistics-2018'' @ [CHR 0x0A]) \<and>
   pattern_match (''statistics-2018'' @ [CHR 0x0A]) \<and>
   snd (get_statistics_shards ''http://solr''
     (example_solr newline_cores example_stats example_pages)) =
     Inr (''http://solr/statistics,http://solr/statistics-2018'' @ [CHR 0x0A])"
  by (simp add: year_core_def run_defs example_defs)

section \<open>Running twice\<close>

lemma set_column_twice: "set_column d n (set_column d m r) = set_column d n r"
  by (cases d) simp_all

lemma fold_upsert_at:
  "fold (upsert d) ps t k =
     (case map_of (rev ps) k of
        None \<Rightarrow> t k
      | Some n \<Rightarrow> Some (set_column d n (row_or_default t k)))"
proof (induction ps rule: rev_induct)
  case Nil
  then show ?case by simp
next
  case (snoc p ps)
  show ?case
  proof (cases "fst p = k")
    case True
    with snoc show ?thesis
      by (cases p) (simp add: upsert_def row_or_default_def set_column_twice split: option.splits)
  next
    case False
    with snoc show ?thesis
      by (cases p) (simp add: upsert_def split: option.splits)
  qed
qed

lemma both_folds_idempotent:
  "fold (upsert Downloads) wd (fold (upsert Views) wv
     (fold (upsert Downloads) wd (fold (upsert Views) wv t))) =
   fold (upsert Downloads) wd (fold (upsert Views) wv t)"
  by (rule ext)
    (simp add: fold_upsert_at row_or_default_def default_row_def split: option.splits)

lemma execute_values_Some:
  "execute_values d rows (Some t) =
     (case int_params rows of
        Inl e \<Rightarrow> Inl e
      | Inr ps \<Rightarrow> Inr (Some (fold (upsert d) ps t)))"
  by (cases rows) (simp_all add: execute_values_def)

lemma page_loop_writes:
  "\<exists>ws r. \<forall>t.
     store (page_loop server shards solr d num cur data (Some t)) = Some (fold (upsert d) ws t) \<and>
     raised (page_loop server shards solr d num cur data (Some t)) = r"
proof (induction "nat (num + 1 - cur)" arbitrary: cur data)
  case 0
  then have "\<not> cur \<le> num" by simp
  then have "\<forall>t. store (page_loop server shards solr d num cur data (Some t)) =
        Some (fold (upsert d) [] t) \<and>
      raised (page_loop server shards solr d num cur data (Some t)) = None"
    by (simp add: page_loop.simps [of _ _ _ _ num cur])
  then show ?case by blast
next
  case (Suc n)
  then have le: "cur \<le> num" by simp
  show ?case
  proof (cases "page_items solr d (page_request server shards d cur)")
    case (Inl e)
    with le have "\<forall>t. store (page_loop server shards solr d num cur data (Some t)) =
          Some (fold (upsert d) [] t) \<and>
        raised (page_loop server shards solr d num cur data (Some t)) = Some e"
      by (simp add: page_loop.simps [of _ _ _ _ num cur])
    then show ?thesis by blast
  next
    case items: (Inr items)
    show ?thesis
    proof (cases "int_params (data @ items)")
      case (Inl e)
      with le items have "\<forall>t. store (page_loop server shards solr d num cur data (Some t)) =
            Some (fold (upsert d) [] t) \<and>
          raised (page_loop server shards solr d num cur data (Some t)) = Some e"
        by (simp add: page_loop.simps [of _ _ _ _ num cur] execute_values_Some)
      then show ?thesis by blast
    next
      case (Inr ps)
      from Suc(2) le have "n = nat (num + 1 - (cur + 1))" by simp
      from Suc(1) [OF this, of "[]"] obtain ws r where
        ih: "\<forall>t. store (page_loop server shards solr d num (cur + 1) [] (Some t)) =
              Some (fold (upsert d) ws t) \<and>
            raised (page_loop server shards solr d num (cur + 1) [] (Some t)) = r"
        by blast
      from le items Inr ih
      have "\<forall>t. store (page_loop server shards solr d num cur data (Some t)) =
            Some (fold (upsert d) (ps @ ws) t) \<and>
          raised (page_loop server shards solr d num cur data (Some t)) = r"
        by (simp add: page_loop.simps [of _ _ _ _ num cur] execute_values_Some)
      then show ?thesis by blast
    qed
  qed
qed

lemma index_dimension_writes:
  "\<exists>ws r. \<forall>t.
     store (index_dimension server shards solr d (Some t)) = Some (fold (upsert d) ws t) \<and>
     raised (index_dimension server shards solr d (Some t)) = r"
proof (cases "solr (stats_request server shards d)")
  case None
  then have "\<forall>t. store (index_dimension server shards solr d (Some t)) =
        Some (fold (upsert d) [] t) \<and>
      raised (index_dimension server shards solr d (Some t)) = Some ConnectionError"
    by (simp add: index_dimension_def)
  then show ?thesis by blast
next
  case (Some res)
  show ?thesis
  proof (cases "count_distinct d res")
    case (Inl e)
    with Some have "\<forall>t. store (index_dimension server shards solr d (Some t)) =
          Some (fold (upsert d) [] t) \<and>
        raised (index_dimension server shards solr d (Some t)) =
          (if e = TypeError then Some (SystemExit 0) else Some e)"
      by (simp add: index_dimension_def)
    then show ?thesis by blast
  next
    case total: (Inr total_facets)
    show ?thesis
    proof (cases "results_num_pages total_facets")
      case (Inl e)
      with Some total have "\<forall>t. store (index_dimension server shards solr d (Some t)) =
            Some (fold (upsert d) [] t) \<and>
          raised (index_dimension server shards solr d (Some t)) = Some e"
        by (simp add: index_dimension_def)
      then show ?thesis by blast
    next
      case (Inr num)
      from page_loop_writes [of server shards solr d num 0 "[]"] obtain ws r where
        "\<forall>t. store (page_loop server shards solr d num 0 [] (Some t)) =
              Some (fold (upsert d) ws t) \<and>
            raised (page_loop server shards solr d num 0 [] (Some t)) = r"
        by blast
      with Some total Inr have "\<forall>t. store (index_dimension server shards solr d (Some t)) =
            Some (fold (upsert d) ws t) \<and>
          raised (index_dimension server shards solr d (Some t)) = r"
        by (simp add: index_dimension_def)
      then show ?thesis by blast
    qed
  qed
qed

lemma create_table_Some: "\<exists>t. create_table db = Some t"
  by (cases db) (simp_all add: create_table_def)

lemma main_writes:
  "\<exists>wv wd r. \<forall>db t. create_table db = Some t \<longrightarrow>
     store (main server solr db) =
       Some (fold (upsert Downloads) wd (fold (upsert Views) wv t)) \<and>
     raised (main server solr db) = r"
proof (cases "snd (get_statistics_shards server solr)")
  case (Inl e)
  then have "\<forall>db t. create_table db = Some t \<longrightarrow>
     store (main server solr db) =
       Some (fold (upsert Downloads) [] (fold (upsert Views) [] t)) \<and>
     raised (main server solr db) = Some e"
    by (simp add: main_def)
  then show ?thesis by blast
next
  case (Inr sh)
  from index_dimension_writes [of server sh solr Views] obtain wv rv where
    v: "\<forall>t. store (index_views server sh solr (Some t)) = Some (fold (upsert Views) wv t) \<and>
        raised (index_views server sh solr (Some t)) = rv"
    unfolding index_views_def by blast
  show ?thesis
  proof (cases rv)
    case (Some e)
    with Inr v have "\<forall>db t. create_table db = Some t \<longrightarrow>
       store (main server solr db) =
         Some (fold (upsert Downloads) [] (fold (upsert Views) wv t)) \<and>
       raised (main server solr db) = Some e"
      by (simp add: main_def)
    then show ?thesis by blast
  next
    case None
    from index_dimension_writes [of server sh solr Downloads] obtain wd rd where
      d: "\<forall>t. store (index_downloads server sh solr (Some t)) =
            Some (fold (upsert Downloads) wd t) \<and>
          raised (index_downloads server sh solr (Some t)) = rd"
      unfolding index_downloads_def by blast
    from Inr v None d have "\<forall>db t. create_table db = Some t \<longrightarrow>
       store (main server solr db) =
         Some (fold (upsert Downloads) wd (fold (upsert Views) wv t)) \<and>
       raised (main server solr db) = rd"
      by (simp add: main_def)
    then show ?thesis by blast
  qed
qed

text \<open>
  Column independence holds for a whole dimension as well: whatever pages Solr serves,
  \<^verbatim>\<open>index_views\<close> leaves the downloads value of every stored row as it was, and
  \<^verbatim>\<open>index_downloads\<close> the views value.
\<close>

corollary dimension_keeps_other_column:
  assumes "t E = Some r"
  shows "(\<exists>t'. store (index_views server shards solr (Some t)) = Some t' \<and>
            map_option downloads (t' E) = Some (downloads r)) \<and>
         (\<exists>t'. store (index_downloads server shards solr (Some t)) = Some t' \<and>
            map_option views (t' E) = Some (views r))"
proof -
  from index_dimension_writes [of server shards solr Views] obtain wv rv where
    v: "store (index_views server shards solr (Some t)) = Some (fold (upsert Views) wv t)"
    unfolding index_views_def by blast
  from index_dimension_writes [of server shards solr Downloads] obtain wd rd where
    d: "store (index_downloads server shards solr (Some t)) = Some (fold (upsert Downloads) wd t)"
    unfolding index_downloads_def by blast
  have "map_option downloads (fold (upsert Views) wv t E) = Some (downloads r)"
    using assms by (rule fold_upsert_keeps_downloads)
  moreover have "map_option views (fold (upsert Downloads) wd t E) = Some (views r)"
    using assms by (rule fold_upsert_keeps_views)
  ultimately show ?thesis
    using v d by simp
qed

text \<open>
  Claim C7. The module is run against a Solr server, from any database, and then run
  again against the same server on the database the first run left. The second run
  leaves the stored table exactly as the first run left it, and ends the same way. This
  holds for every server, whether the runs complete or stop at a failing page.
\<close>

theorem rerun_is_noop:
  "store (main server solr (store (main server solr db))) = store (main server solr db) \<and>
   raised (main server solr (store (main server solr db))) = raised (main server solr db)"
proof -
  from main_writes [of server solr] obtain wv wd r where
    w: "\<And>db t. create_table db = Some t \<Longrightarrow>
     store (main server solr db) =
       Some (fold (upsert Downloads) wd (fold (upsert Views) wv t)) \<and>
     raised (main server solr db) = r"
    by blast
  obtain t where t: "create_table db = Some t"
    using create_table_Some by blast
  let ?s = "fold (upsert Downloads) wd (fold (upsert Views) wv t)"
  have first: "store (main server solr db) = Some ?s" "raised (main server solr db) = r"
    using w [OF t] by simp_all
  have "create_table (Some ?s) = Some ?s"
    by (simp add: create_table_def)
  from w [OF this] have
    second: "store (main server solr (Some ?s)) =
        Some (fold (upsert Downloads) wd (fold (upsert Views) wv ?s))"
      "raised (main server solr (Some ?s)) = r"
    by simp_all
  show ?thesis
    using first second by (simp add: both_folds_idempotent)
qed

text \<open>
  The theorem on the example server: after the first run \<open>A\<close> holds (5, 2) and \<open>B\<close>
  holds (3, 0), and after the second run as well.
\<close>

theorem rerun_is_noop_witness:
  "stored (main ''http://solr'' (example_solr example_cores example_stats example_pages) None)
     ''A'' = Some \<lparr>views = 5, downloads = 2\<rparr> \<and>
   stored (main ''http://solr'' (example_solr example_cores example_stats example_pages) None)
     ''B'' = Some \<lparr>views = 3, downloads = 0\<rparr> \<and>
   stored (main ''http://solr'' (example_solr example_cores example_stats example_pages)
     (store (main ''http://solr'' (example_solr example_cores example_stats example_pages) None)))
     ''A'' = Some \<lparr>views = 5, downloads = 2\<rparr> \<and>
   stored (main ''http://solr'' (example_solr example_cores example_stats example_pages)
     (store (main ''http://solr'' (example_solr example_cores example_stats example_pages) None)))
     ''B'' = Some \<lparr>views = 3, downloads = 0\<rparr>"
proof -
  have a: "stored (main ''http://solr''
      (example_solr example_cores example_stats example_pages) None) ''A'' =
      Some \<lparr>views = 5, downloads = 2\<rparr>"
    by (simp add: run_defs example_defs)
  have b: "stored (main ''http://solr''
      (example_solr example_cores example_stats example_pages) None) ''B'' =
      Some \<lparr>views = 3, downloads = 0\<rparr>"
    by (simp add: run_defs example_defs)
  have again: "stored (main ''http://solr'' (example_solr example_cores example_stats example_pages)
     (store (main ''http://solr'' (example_solr example_cores example_stats example_pages) None))) k =
     stored (main ''http://solr'' (example_solr example_cores example_stats example_pages) None) k"
    for k
    using rerun_is_noop [of "''http://solr''"
        "example_solr example_cores example_stats example_pages" None]
    by (simp add: stored_def)
  show ?thesis
    using a b by (simp add: again)
qed

end
